theory Spec2Isabelle
  imports Main "HOL-Library.Multiset" "HOL-Library.Product_Lexorder" "HOL-Library.List_Lexorder"
begin

section \<open>JSON values and the JavaScript coercions the handlers rely on\<close>

text \<open>
  Request bodies and table rows are JavaScript objects: finite maps from a field name to a
  JSON value. The scalar fragment of JSON is modelled (strings, integers, booleans, null);
  a missing field (\<^verbatim>\<open>undefined\<close>) is \<open>None\<close>.
\<close>

datatype jsval = JStr string | JNum int | JBool bool | JNull

type_synonym obj = "string \<rightharpoonup> jsval"

text \<open>JavaScript truthiness, as used by \<^verbatim>\<open>if (x)\<close>, \<^verbatim>\<open>!x\<close> and \<^verbatim>\<open>a || b\<close>.\<close>

fun truthy :: "jsval option \<Rightarrow> bool" where
  "truthy None = False"
| "truthy (Some (JStr s)) = (s \<noteq> [])"
| "truthy (Some (JNum n)) = (n \<noteq> 0)"
| "truthy (Some (JBool b)) = b"
| "truthy (Some JNull) = False"

definition is_digit :: "char \<Rightarrow> bool" where
  "is_digit c = (c \<in> set ''0123456789'')"

definition digit_val :: "char \<Rightarrow> nat" where
  "digit_val c = of_char c - 48"

definition dec_of :: "string \<Rightarrow> nat" where
  "dec_of s = foldl (\<lambda>a c. 10 * a + digit_val c) 0 s"

definition digit_char :: "nat \<Rightarrow> char" where
  "digit_char d = ''0123456789'' ! (d mod 10)"

text \<open>\<^verbatim>\<open>String(n)\<close> for a non-negative integer: its decimal digits, without leading zeros.\<close>

fun show_nat :: "nat \<Rightarrow> string" where
  "show_nat n = (if n < 10 then [digit_char n] else show_nat (n div 10) @ [digit_char (n mod 10)])"

declare show_nat.simps [simp del]

definition show_int :: "int \<Rightarrow> string" where
  "show_int i = (if i < 0 then CHR ''-'' # show_nat (nat (- i)) else show_nat (nat i))"

text \<open>
  A JavaScript number is a double. The model computes with the integers a double holds
  exactly, those between \<open>- MAX_SAFE_INTEGER\<close> and \<open>MAX_SAFE_INTEGER\<close>; \<open>exact\<close> keeps such a
  value and gives \<open>None\<close> for any other, so that \<open>None\<close> always means: outside what is
  modelled.
\<close>

definition MAX_SAFE_INTEGER :: int where
  "MAX_SAFE_INTEGER = 9007199254740991"

definition exact :: "int \<Rightarrow> int option" where
  "exact n = (if - MAX_SAFE_INTEGER \<le> n \<and> n \<le> MAX_SAFE_INTEGER then Some n else None)"

text \<open>
  \<^verbatim>\<open>Number(x)\<close>, the coercion behind \<^verbatim>\<open>-\<close>, \<^verbatim>\<open>*\<close>, \<^verbatim>\<open>/\<close>, \<^verbatim>\<open><\<close> and \<^verbatim>\<open>>\<close>, on the
  integer fragment: a number is itself, the empty string is 0, a string of decimal digits is
  its value. \<open>None\<close> stands for every other string (NaN, and the signed, fractional,
  padded or exponent forms, which are outside the modelled fragment) and for a value that
  is not exact.
\<close>

fun to_number :: "jsval \<Rightarrow> int option" where
  "to_number (JNum n) = exact n"
| "to_number (JStr s) =
     (if s = [] then Some 0
      else if list_all is_digit s then exact (int (dec_of s)) else None)"
| "to_number (JBool b) = Some (if b then 1 else 0)"
| "to_number JNull = Some 0"

text \<open>
  \<^verbatim>\<open>parseInt(x)\<close> with no radix, on strings of ASCII characters: leading white space is
  skipped, then a sign is read, then \<^verbatim>\<open>0x\<close> or \<^verbatim>\<open>0X\<close> selects base 16; the value is that of the
  longest prefix of digits of the base, and NaN when there is none. What follows the digits
  is ignored. The result is \<open>None\<close> (not modelled) for a string with a character outside
  ASCII and for a value that is not exact. A number is first converted to its string, and
  \<^verbatim>\<open>true\<close>, \<^verbatim>\<open>false\<close> and \<^verbatim>\<open>null\<close> have no digits.
\<close>

datatype js_number = NaN | Num int

definition is_ascii :: "char \<Rightarrow> bool" where
  "is_ascii c = ((of_char c :: nat) < 128)"

definition is_space :: "char \<Rightarrow> bool" where
  "is_space c = (c \<in> set [CHR 0x09, CHR 0x0A, CHR 0x0B, CHR 0x0C, CHR 0x0D, CHR 0x20])"

definition is_hex :: "char \<Rightarrow> bool" where
  "is_hex c = (c \<in> set ''0123456789abcdefABCDEF'')"

definition hex_val :: "char \<Rightarrow> nat" where
  "hex_val c =
     (if is_digit c then of_char c - 48
      else if c \<in> set ''abcdef'' then of_char c - 87
      else of_char c - 55)"

definition hex_of :: "string \<Rightarrow> nat" where
  "hex_of s = foldl (\<lambda>a c. 16 * a + hex_val c) 0 s"

definition parseInt_string :: "string \<Rightarrow> js_number option" where
  "parseInt_string s =
     (if \<not> list_all is_ascii s then None
      else
        let s1 = dropWhile is_space s;
            neg = (s1 \<noteq> [] \<and> hd s1 = CHR ''-'');
            s2 = (if s1 \<noteq> [] \<and> (hd s1 = CHR ''-'' \<or> hd s1 = CHR ''+'') then tl s1 else s1);
            hex = (take 2 s2 = ''0x'' \<or> take 2 s2 = ''0X'');
            z = (if hex then takeWhile is_hex (drop 2 s2) else takeWhile is_digit s2)
        in if z = [] then Some NaN
           else map_option (\<lambda>v. Num (if neg then - v else v))
                  (exact (int (if hex then hex_of z else dec_of z))))"

fun parseInt :: "jsval \<Rightarrow> js_number option" where
  "parseInt (JNum n) = map_option Num (exact n)"
| "parseInt (JStr s) = parseInt_string s"
| "parseInt (JBool b) = Some NaN"
| "parseInt JNull = Some NaN"

text \<open>
  \<^verbatim>\<open>a + b\<close>: string concatenation as soon as one operand is a string, addition of numbers
  otherwise. The left operand is always a number where the handlers use it.
\<close>

fun js_plus :: "int \<Rightarrow> jsval \<Rightarrow> jsval option" where
  "js_plus a (JStr s) = Some (JStr (show_int a @ s))"
| "js_plus a v = Option.bind (to_number v) (\<lambda>b. map_option JNum (exact (a + b)))"

text \<open>
  \<^verbatim>\<open>Math.ceil(a / b)\<close> for exact integers; \<open>None\<close> when \<open>b = 0\<close> (Infinity or NaN). For
  exact \<open>a\<close> and \<open>b\<close> the rounding of the quotient never reaches the next integer, so the
  ceiling of the double is the ceiling of the fraction.
\<close>

definition ceil_div :: "int \<Rightarrow> int \<Rightarrow> int option" where
  "ceil_div a b = (if b = 0 then None else Some (- ((- a) div b)))"

text \<open>\<^verbatim>\<open>s.split(c)\<close> for a one-character separator.\<close>

fun split_on :: "char \<Rightarrow> string \<Rightarrow> string list" where
  "split_on c [] = [[]]"
| "split_on c (x # xs) =
     (if x = c then [] # split_on c xs
      else (case split_on c xs of [] \<Rightarrow> [[x]] | w # ws \<Rightarrow> (x # w) # ws))"

definition nth_opt :: "'a list \<Rightarrow> nat \<Rightarrow> 'a option" where
  "nth_opt xs i = (if i < length xs then Some (xs ! i) else None)"

section \<open>Errors and the error handler\<close>

text \<open>
  An error object carries the fields the error handler inspects. The custom error classes
  of \<^verbatim>\<open>errorHandler.js\<close> set \<^verbatim>\<open>name\<close> and \<^verbatim>\<open>status\<close>.
\<close>

record js_error =
  err_name :: string
  err_code :: "int option"
  err_status :: "nat option"
  err_message :: string

definition ValidationError :: "string \<Rightarrow> js_error" where
  "ValidationError msg =
     \<lparr>err_name = ''ValidationError'', err_code = None, err_status = Some 400, err_message = msg\<rparr>"

definition NotFoundError :: "string \<Rightarrow> js_error" where
  "NotFoundError msg =
     \<lparr>err_name = ''NotFoundError'', err_code = None, err_status = Some 404, err_message = msg\<rparr>"

definition UnauthorizedError :: "string \<Rightarrow> js_error" where
  "UnauthorizedError msg =
     \<lparr>err_name = ''UnauthorizedError'', err_code = None, err_status = Some 401, err_message = msg\<rparr>"

definition ForbiddenError :: "string \<Rightarrow> js_error" where
  "ForbiddenError msg =
     \<lparr>err_name = ''ForbiddenError'', err_code = None, err_status = Some 403, err_message = msg\<rparr>"

definition SupabaseError :: "string \<Rightarrow> js_error" where
  "SupabaseError msg =
     \<lparr>err_name = ''SupabaseError'', err_code = None, err_status = Some 500, err_message = msg\<rparr>"

text \<open>The errors \<^verbatim>\<open>jwt.verify\<close> reports, by their \<^verbatim>\<open>name\<close>.\<close>

datatype jwt_error = JsonWebTokenError | TokenExpiredError | NotBeforeError

fun jwt_error_name :: "jwt_error \<Rightarrow> string" where
  "jwt_error_name JsonWebTokenError = ''JsonWebTokenError''"
| "jwt_error_name TokenExpiredError = ''TokenExpiredError''"
| "jwt_error_name NotBeforeError = ''NotBeforeError''"

definition jwt_error_obj :: "jwt_error \<Rightarrow> js_error" where
  "jwt_error_obj e =
     \<lparr>err_name = jwt_error_name e, err_code = None, err_status = None, err_message = ''jwt''\<rparr>"

text \<open>The status code \<^verbatim>\<open>errorHandler\<close> sends: the first branch of its chain that matches.\<close>

definition errorHandler :: "js_error \<Rightarrow> nat" where
  "errorHandler err =
     (if err_name err = ''ValidationError'' then 400
      else if err_name err = ''CastError'' then 400
      else if err_code err = Some 11000 then 409
      else if err_name err = ''JsonWebTokenError'' then 401
      else if err_name err = ''TokenExpiredError'' then 401
      else if err_name err = ''UnauthorizedError'' then 401
      else if err_name err = ''ForbiddenError'' then 403
      else if err_name err = ''NotFoundError'' then 404
      else if err_name err = ''RateLimitError'' then 429
      else if err_name err = ''SupabaseError'' then 500
      else (case err_status err of
              Some s \<Rightarrow> (if s \<noteq> 0 then s else 500)
            | None \<Rightarrow> 500))"

section \<open>The datastore\<close>

text \<open>
  The hosted store is reached through the query builder of \<^verbatim>\<open>config/supabase.js\<close>. It is
  modelled as named tables of rows with a schema (the column names of the README's
  database schema) and with the store's own ordering of column values, \<open>colkey\<close>:
  \<open>colkey c v\<close> is the position of value \<open>v\<close> in the order of column \<open>c\<close>.
  Every filter method called on a builder adds one clause; a row is selected when it
  satisfies all of them, and \<^verbatim>\<open>.or(...)\<close> is a single clause that holds when one of its
  alternatives does. A comparison with NULL never holds. \<open>ilike\<close> is the store's
  case-insensitive pattern match (\<open>ilike db pattern text\<close>). Embedded resources
  (\<^verbatim>\<open>patients (...)\<close>, \<^verbatim>\<open>doctors (...)\<close>) are not modelled.
\<close>

type_synonym row = obj

datatype clause =
    Eq string jsval
  | Gte string jsval
  | Lte string jsval
  | In string "jsval list"
  | ILike string string
  | Or "clause list"

record 'k datastore =
  colkey :: "string \<Rightarrow> jsval option \<Rightarrow> 'k"
  ilike :: "string \<Rightarrow> string \<Rightarrow> bool"
  schema :: "string \<rightharpoonup> string list"
  rows_of :: "string \<Rightarrow> row list"

definition TABLES_USERS :: string where "TABLES_USERS = ''users''"
definition TABLES_PATIENTS :: string where "TABLES_PATIENTS = ''patients''"
definition TABLES_APPOINTMENTS :: string where "TABLES_APPOINTMENTS = ''appointments''"

definition appointments_columns :: "string list" where
  "appointments_columns =
     [''id'', ''patientId'', ''doctorId'', ''clinicId'', ''appointmentDate'',
      ''appointmentTime'', ''duration'', ''type'', ''status'', ''reason'', ''notes'',
      ''createdBy'', ''createdAt'', ''updatedAt'']"

definition patients_columns :: "string list" where
  "patients_columns =
     [''id'', ''firstName'', ''lastName'', ''dateOfBirth'', ''gender'', ''phone'', ''email'',
      ''address'', ''emergencyContact'', ''medicalHistory'', ''allergies'', ''bloodType'',
      ''isActive'', ''createdBy'', ''createdAt'', ''updatedAt'']"

definition users_columns :: "string list" where
  "users_columns =
     [''id'', ''email'', ''firstName'', ''lastName'', ''role'', ''phone'', ''dateOfBirth'',
      ''gender'', ''isActive'', ''createdAt'', ''updatedAt'']"

definition is_null :: "jsval option \<Rightarrow> bool" where
  "is_null v = (v = None \<or> v = Some JNull)"

fun holds :: "('k::linorder) datastore \<Rightarrow> row \<Rightarrow> clause \<Rightarrow> bool" where
  "holds db r (Eq c v) = (v \<noteq> JNull \<and> r c = Some v)"
| "holds db r (Gte c v) =
     (\<not> is_null (r c) \<and> v \<noteq> JNull \<and> colkey db c (Some v) \<le> colkey db c (r c))"
| "holds db r (Lte c v) =
     (\<not> is_null (r c) \<and> v \<noteq> JNull \<and> colkey db c (r c) \<le> colkey db c (Some v))"
| "holds db r (In c vs) = (\<exists>v\<in>set vs. v \<noteq> JNull \<and> r c = Some v)"
| "holds db r (ILike c pat) = (case r c of Some (JStr s) \<Rightarrow> ilike db pat s | _ \<Rightarrow> False)"
| "holds db r (Or cs) = (\<exists>c\<in>set cs. holds db r c)"

fun clause_cols :: "clause \<Rightarrow> string list" where
  "clause_cols (Eq c v) = [c]"
| "clause_cols (Gte c v) = [c]"
| "clause_cols (Lte c v) = [c]"
| "clause_cols (In c vs) = [c]"
| "clause_cols (ILike c pat) = [c]"
| "clause_cols (Or cs) = concat (map clause_cols cs)"

definition matches :: "('k::linorder) datastore \<Rightarrow> clause list \<Rightarrow> row \<Rightarrow> bool" where
  "matches db cs r = (\<forall>c\<in>set cs. holds db r c)"

text \<open>
  \<^verbatim>\<open>ORDER BY o1, o2, ...\<close>: the first \<^verbatim>\<open>.order\<close> call is the primary key. Insertion sort is
  stable, so sorting by the later keys first and by the first key last gives that order.
\<close>

fun order_rows :: "(string \<Rightarrow> jsval option \<Rightarrow> 'k::linorder) \<Rightarrow> (string \<times> bool) list \<Rightarrow> row list \<Rightarrow> row list" where
  "order_rows key [] rs = rs"
| "order_rows key ((c, ascending) # os) rs =
     (let rs' = order_rows key os rs
      in if ascending then sort_key (\<lambda>r. key c (r c)) rs'
         else rev (sort_key (\<lambda>r. key c (r c)) (rev rs')))"

record sel_query =
  sel_table :: string
  sel_filters :: "clause list"
  sel_order :: "(string \<times> bool) list"
  sel_range :: "(int \<times> int) option"

definition sel_cols :: "sel_query \<Rightarrow> string list" where
  "sel_cols q = concat (map clause_cols (sel_filters q)) @ map fst (sel_order q)"

text \<open>
  A select answers \<open>Inl\<close> (the builder's \<^verbatim>\<open>error\<close>) for an unknown table or column and for a
  range of negative offset or length; otherwise the rows of the page and \<^verbatim>\<open>count\<close>, the
  number of rows that satisfy the filters. \<^verbatim>\<open>range(from, to)\<close> is offset \<open>from\<close> and limit
  \<open>to - from + 1\<close>.
\<close>

definition run_select :: "('k::linorder) datastore \<Rightarrow> sel_query \<Rightarrow> string + (row list \<times> nat)" where
  "run_select db q =
     (case schema db (sel_table q) of
        None \<Rightarrow> Inl ''relation does not exist''
      | Some cols \<Rightarrow>
          if \<not> set (sel_cols q) \<subseteq> set cols then Inl ''column does not exist''
          else
            let matched = filter (matches db (sel_filters q)) (rows_of db (sel_table q));
                ordered = order_rows (colkey db) (sel_order q) matched
            in (case sel_range q of
                  None \<Rightarrow> Inr (ordered, length matched)
                | Some (from, to) \<Rightarrow>
                    if from < 0 \<or> to - from + 1 < 0 then Inl ''invalid range''
                    else Inr (take (nat (to - from + 1)) (drop (nat from) ordered),
                              length matched)))"

text \<open>\<^verbatim>\<open>.single()\<close>: exactly one row, or an error.\<close>

definition single :: "string + (row list \<times> 'a) \<Rightarrow> string + row" where
  "single res =
     (case res of
        Inl e \<Rightarrow> Inl e
      | Inr (rs, _) \<Rightarrow> (case rs of [r] \<Rightarrow> Inr r | _ \<Rightarrow> Inl ''not a single row''))"

text \<open>
  \<^verbatim>\<open>.insert(data).select().single()\<close>. The store assigns the id \<open>newId\<close> when the data carries
  none; \<open>id\<close> is the primary key, so a row whose id is taken is refused.
\<close>

definition store_insert ::
  "('k::linorder) datastore \<Rightarrow> string \<Rightarrow> string \<Rightarrow> obj \<Rightarrow> string + (row \<times> 'k datastore)" where
  "store_insert db tbl newId data =
     (case schema db tbl of
        None \<Rightarrow> Inl ''relation does not exist''
      | Some cols \<Rightarrow>
          if \<not> dom data \<subseteq> set cols then Inl ''column does not exist''
          else
            let r = (if is_null (data ''id'') then data(''id'' \<mapsto> JStr newId) else data)
            in if \<exists>r'\<in>set (rows_of db tbl). r' ''id'' = r ''id'' then Inl ''duplicate key''
               else Inr (r, db\<lparr>rows_of := (rows_of db)(tbl := rows_of db tbl @ [r])\<rparr>))"

text \<open>
  \<^verbatim>\<open>.update(data).eq(...).select().single()\<close>: the fields of \<open>data\<close> overwrite those of every
  selected row. When not exactly one row is selected the call answers an error and the
  table is unchanged; so it is when the update would leave the row without an id or with
  the id of another row, \<open>id\<close> being the primary key.
\<close>

definition store_update_single ::
  "('k::linorder) datastore \<Rightarrow> string \<Rightarrow> clause list \<Rightarrow> obj \<Rightarrow> string + (row \<times> 'k datastore)" where
  "store_update_single db tbl cs data =
     (case schema db tbl of
        None \<Rightarrow> Inl ''relation does not exist''
      | Some cols \<Rightarrow>
          if \<not> (dom data \<subseteq> set cols \<and> set (concat (map clause_cols cs)) \<subseteq> set cols)
          then Inl ''column does not exist''
          else
            (case filter (matches db cs) (rows_of db tbl) of
               [r] \<Rightarrow>
                 if is_null ((r ++ data) ''id'') \<or>
                    (\<exists>x\<in>set (rows_of db tbl). \<not> matches db cs x \<and> x ''id'' = (r ++ data) ''id'')
                 then Inl ''duplicate key''
                 else
                   Inr (r ++ data,
                        db\<lparr>rows_of := (rows_of db)
                           (tbl := map (\<lambda>x. if matches db cs x then x ++ data else x)
                                     (rows_of db tbl))\<rparr>)
             | _ \<Rightarrow> Inl ''not a single row''))"

text \<open>\<^verbatim>\<open>.delete().eq(...).select().single()\<close>: removes the selected row and answers it.\<close>

definition store_delete_single ::
  "('k::linorder) datastore \<Rightarrow> string \<Rightarrow> clause list \<Rightarrow> string + (row \<times> 'k datastore)" where
  "store_delete_single db tbl cs =
     (case schema db tbl of
        None \<Rightarrow> Inl ''relation does not exist''
      | Some cols \<Rightarrow>
          if \<not> set (concat (map clause_cols cs)) \<subseteq> set cols then Inl ''column does not exist''
          else
            (case filter (matches db cs) (rows_of db tbl) of
               [r] \<Rightarrow>
                 Inr (r,
                      db\<lparr>rows_of := (rows_of db)
                         (tbl := filter (\<lambda>x. \<not> matches db cs x) (rows_of db tbl))\<rparr>)
             | _ \<Rightarrow> Inl ''not a single row''))"

section \<open>Requests, middleware and routes\<close>

record auth_user =
  user_id :: string

text \<open>
  The part of an Express request the middleware and handlers read. \<open>user\<close>, \<open>userId\<close> and
  \<open>userRole\<close> are the properties the middleware adds; they are \<open>None\<close> until then.
\<close>

record request =
  authorization :: "string option"
  params :: "string \<rightharpoonup> string"
  query :: "string \<rightharpoonup> string"
  body :: obj
  user :: "auth_user option"
  userId :: "string option"
  userRole :: "string option"

text \<open>A middleware either answers the request itself or calls \<^verbatim>\<open>next()\<close>.\<close>

datatype mw = Respond nat string | Next request

text \<open>The answer of \<^verbatim>\<open>supabase.auth.getUser(token)\<close>: it throws, or gives \<^verbatim>\<open>{ data: { user }, error }\<close>.\<close>

datatype getUser_result = Throws | Answer bool "auth_user option"

text \<open>
  \<^verbatim>\<open>authenticateToken\<close> (auth.js, lines 5 to 56). \<open>jwt_verify\<close> is \<^verbatim>\<open>jwt.verify\<close> with the
  configured secret: the error it hands to the callback, if any.
\<close>

definition authenticateToken ::
  "(string \<Rightarrow> jwt_error option) \<Rightarrow> (string \<Rightarrow> getUser_result) \<Rightarrow> request \<Rightarrow> mw" where
  "authenticateToken jwt_verify getUser req =
     (let token = (case authorization req of
                     None \<Rightarrow> None
                   | Some authHeader \<Rightarrow>
                       if authHeader = [] then Some []
                       else nth_opt (split_on CHR '' '' authHeader) 1)
      in case token of
           None \<Rightarrow> Respond 401 ''Access token required''
         | Some t \<Rightarrow>
             if t = [] then Respond 401 ''Access token required''
             else (case jwt_verify t of
                     Some err \<Rightarrow> Respond 403 ''Invalid token''
                   | None \<Rightarrow>
                       (case getUser t of
                          Throws \<Rightarrow> Respond 401 ''Authentication failed''
                        | Answer error usr \<Rightarrow>
                            (case usr of
                               None \<Rightarrow> Respond 401 ''User not found''
                             | Some u \<Rightarrow>
                                 if error then Respond 401 ''User not found''
                                 else Next (req\<lparr>user := Some u, userId := Some (user_id u)\<rparr>)))))"

text \<open>\<^verbatim>\<open>requireRole(roles)\<close> (auth.js, lines 59 to 102): the role is read from the users table.\<close>

definition requireRole :: "string list \<Rightarrow> ('k::linorder) datastore \<Rightarrow> request \<Rightarrow> mw" where
  "requireRole roles db req =
     (case user req of
        None \<Rightarrow> Respond 401 ''Authentication required''
      | Some u \<Rightarrow>
          (case single (run_select db
                  \<lparr>sel_table = ''users'', sel_filters = [Eq ''id'' (JStr (user_id u))],
                   sel_order = [], sel_range = None\<rparr>) of
             Inl _ \<Rightarrow> Respond 403 ''Access denied''
           | Inr userProfile \<Rightarrow>
               (case userProfile ''role'' of
                  Some (JStr r) \<Rightarrow>
                    if r \<in> set roles then Next (req\<lparr>userRole := Some r\<rparr>)
                    else Respond 403 ''Insufficient permissions''
                | _ \<Rightarrow> Respond 403 ''Insufficient permissions'')))"

definition requireDoctor :: "('k::linorder) datastore \<Rightarrow> request \<Rightarrow> mw" where
  "requireDoctor = requireRole [''doctor'', ''admin'']"

definition requireAdmin :: "('k::linorder) datastore \<Rightarrow> request \<Rightarrow> mw" where
  "requireAdmin = requireRole [''admin'']"

text \<open>\<^verbatim>\<open>canAccessPatient\<close> (auth.js, lines 111 to 143).\<close>

definition canAccessPatient :: "request \<Rightarrow> mw" where
  "canAccessPatient req =
     (let patientId =
            (case params req ''patientId'' of
               Some p \<Rightarrow> if p \<noteq> [] then Some (JStr p) else body req ''patientId''
             | None \<Rightarrow> body req ''patientId'')
      in if \<not> truthy patientId then Respond 400 ''Patient ID required''
         else if userRole req = Some ''admin'' \<or> userRole req = Some ''doctor'' then Next req
         else if userRole req = Some ''patient'' \<and> map_option JStr (userId req) = patientId
           then Next req
         else Respond 403 ''Access denied'')"

text \<open>
  A route is a gate followed by a handler wrapped in \<^verbatim>\<open>asyncHandler\<close>: what the handler
  throws goes to the error handler, which picks the status code; otherwise the handler's
  own code is sent with its payload. A handler changes the store at most once, as its
  last store call, so a failed request leaves the store as it was.
\<close>

datatype 'p response = ErrorResponse nat string | Success nat 'p

definition route ::
  "(request \<Rightarrow> mw) \<Rightarrow> nat \<Rightarrow> (request \<Rightarrow> js_error + ('p \<times> 'k datastore)) \<Rightarrow>
   'k datastore \<Rightarrow> request \<Rightarrow> 'p response \<times> 'k datastore" where
  "route gate code handler db req =
     (case gate req of
        Respond c e \<Rightarrow> (ErrorResponse c e, db)
      | Next req' \<Rightarrow>
          (case handler req' of
             Inl err \<Rightarrow> (ErrorResponse (errorHandler err) (err_message err), db)
           | Inr (p, db') \<Rightarrow> (Success code p, db')))"

section \<open>Appointment routes\<close>

text \<open>The value of a route parameter; Express only matches a route when it is present.\<close>

definition param :: "request \<Rightarrow> string \<Rightarrow> string" where
  "param req k = (case params req k of Some v \<Rightarrow> v | None \<Rightarrow> [])"

subsection \<open>Request validation\<close>

text \<open>
  The express-validator chains. Each chain names a field, says whether it is optional
  (skipped when the field is undefined), and carries one check and one message. The checks
  read the field through the library's string conversion, except \<^verbatim>\<open>isString\<close>, which tests
  the type. \<^verbatim>\<open>isUUID\<close> and \<^verbatim>\<open>isISO8601\<close> belong to the library and are parameters.
\<close>

record validators =
  isUUID :: "string \<Rightarrow> bool"
  isISO8601 :: "string \<Rightarrow> bool"

datatype check = IsUUID | IsISO8601 | MatchesTime | IsInt int int | IsIn "string list" | IsString

fun to_str :: "jsval option \<Rightarrow> string" where
  "to_str None = []"
| "to_str (Some JNull) = []"
| "to_str (Some (JStr s)) = s"
| "to_str (Some (JNum n)) = show_int n"
| "to_str (Some (JBool b)) = (if b then ''true'' else ''false'')"

text \<open>The pattern \<^verbatim>\<open>/^([0-1]?[0-9]|2[0-3]):[0-5][0-9]$/\<close>.\<close>

definition matches_time :: "string \<Rightarrow> bool" where
  "matches_time s =
     (case s of
        [h, c, m1, m2] \<Rightarrow>
          is_digit h \<and> c = CHR '':'' \<and> m1 \<in> set ''012345'' \<and> is_digit m2
      | [h1, h2, c, m1, m2] \<Rightarrow>
          ((h1 \<in> set ''01'' \<and> is_digit h2) \<or> (h1 = CHR ''2'' \<and> h2 \<in> set ''0123''))
          \<and> c = CHR '':'' \<and> m1 \<in> set ''012345'' \<and> is_digit m2
      | _ \<Rightarrow> False)"

text \<open>\<^verbatim>\<open>isInt({ min, max })\<close>: an optional sign and decimal digits, with a value in the range.\<close>

definition is_int_in :: "int \<Rightarrow> int \<Rightarrow> string \<Rightarrow> bool" where
  "is_int_in lo hi s =
     (let neg = (s \<noteq> [] \<and> hd s = CHR ''-'');
          ds = (if s \<noteq> [] \<and> (hd s = CHR ''-'' \<or> hd s = CHR ''+'') then tl s else s);
          n = (if neg then - int (dec_of ds) else int (dec_of ds))
      in ds \<noteq> [] \<and> list_all is_digit ds \<and> lo \<le> n \<and> n \<le> hi)"

fun check_ok :: "validators \<Rightarrow> check \<Rightarrow> jsval option \<Rightarrow> bool" where
  "check_ok V IsUUID v = isUUID V (to_str v)"
| "check_ok V IsISO8601 v = isISO8601 V (to_str v)"
| "check_ok V MatchesTime v = matches_time (to_str v)"
| "check_ok V (IsInt lo hi) v = is_int_in lo hi (to_str v)"
| "check_ok V (IsIn xs) v = (to_str v \<in> set xs)"
| "check_ok V IsString v = (case v of Some (JStr s) \<Rightarrow> True | _ \<Rightarrow> False)"

type_synonym vchain = "string \<times> bool \<times> check \<times> string"

definition appointment_types :: "string list" where
  "appointment_types = [''consultation'', ''follow-up'', ''emergency'', ''routine'', ''surgery'']"

definition appointment_statuses :: "string list" where
  "appointment_statuses =
     [''scheduled'', ''confirmed'', ''in-progress'', ''completed'', ''cancelled'', ''no-show'']"

definition validateAppointmentData :: "vchain list" where
  "validateAppointmentData =
     [(''patientId'', False, IsUUID, ''Valid patient ID is required''),
      (''doctorId'', False, IsUUID, ''Valid doctor ID is required''),
      (''appointmentDate'', False, IsISO8601, ''Valid appointment date is required''),
      (''appointmentTime'', False, MatchesTime, ''Valid appointment time is required (HH:MM)''),
      (''duration'', False, IsInt 15 240, ''Duration must be between 15 and 240 minutes''),
      (''type'', False, IsIn appointment_types, ''Valid appointment type is required''),
      (''reason'', True, IsString, ''Reason must be a string''),
      (''notes'', True, IsString, ''Notes must be a string'')]"


text \<open>\<^verbatim>\<open>validationResult(req).array()\<close>, as the messages of the chains that fail, in order.\<close>

definition validationResult :: "validators \<Rightarrow> vchain list \<Rightarrow> obj \<Rightarrow> string list" where
  "validationResult V vs b =
     map (\<lambda>(f, opt, chk, msg). msg)
       (filter (\<lambda>(f, opt, chk, msg). \<not> (opt \<and> b f = None) \<and> \<not> check_ok V chk (b f)) vs)"

subsection \<open>Create, update, status, delete\<close>

definition val :: "obj \<Rightarrow> string \<Rightarrow> jsval" where
  "val m k = (case m k of Some v \<Rightarrow> v | None \<Rightarrow> JNull)"

text \<open>The conflict query of \<^verbatim>\<open>POST /\<close> (lines 151 to 157), one clause for each builder call.\<close>

definition conflict_query :: "obj \<Rightarrow> sel_query" where
  "conflict_query appointmentData =
     \<lparr>sel_table = TABLES_APPOINTMENTS,
      sel_filters =
        [Eq ''doctorId'' (val appointmentData ''doctorId''),
         Eq ''appointmentDate'' (val appointmentData ''appointmentDate''),
         Eq ''status'' (JStr ''scheduled''),
         Or [Eq ''status'' (JStr ''confirmed''), Eq ''status'' (JStr ''in-progress'')]],
      sel_order = [], sel_range = None\<rparr>"

text \<open>
  \<^verbatim>\<open>POST /\<close> (lines 135 to 190). \<open>now1\<close> and \<open>now2\<close> are the two readings of the clock,
  \<open>newId\<close> the id the store assigns. A key whose value is undefined is not sent to the store.
\<close>

definition createAppointment ::
  "validators \<Rightarrow> string \<Rightarrow> string \<Rightarrow> string \<Rightarrow> ('k::linorder) datastore \<Rightarrow> request \<Rightarrow>
   js_error + (row \<times> 'k datastore)" where
  "createAppointment V now1 now2 newId db req =
     (case validationResult V validateAppointmentData (body req) of
        msg # _ \<Rightarrow> Inl (ValidationError msg)
      | [] \<Rightarrow>
          let appointmentData =
                (body req)(''createdBy'' := map_option JStr (userId req),
                           ''status'' \<mapsto> JStr ''scheduled'',
                           ''createdAt'' \<mapsto> JStr now1,
                           ''updatedAt'' \<mapsto> JStr now2)
          in (case run_select db (conflict_query appointmentData) of
                Inl _ \<Rightarrow> Inl (ValidationError ''Failed to check for scheduling conflicts'')
              | Inr (conflicts, _) \<Rightarrow>
                  if length conflicts > 0
                  then Inl (ValidationError ''Appointment time conflicts with existing appointments'')
                  else (case store_insert db TABLES_APPOINTMENTS newId appointmentData of
                          Inl _ \<Rightarrow> Inl (ValidationError ''Failed to create appointment'')
                        | Inr (appointment, db') \<Rightarrow> Inr (appointment, db'))))"



text \<open>\<^verbatim>\<open>PATCH /:appointmentId/status\<close> (lines 333 to 368).\<close>

definition updateAppointmentStatus ::
  "string \<Rightarrow> ('k::linorder) datastore \<Rightarrow> request \<Rightarrow> js_error + (row \<times> 'k datastore)" where
  "updateAppointmentStatus now db req =
     (let appointmentId = param req ''appointmentId'';
          status = body req ''status''
      in if \<not> (\<exists>s\<in>set appointment_statuses. status = Some (JStr s))
         then Inl (ValidationError ''Invalid appointment status'')
         else (case store_update_single db TABLES_APPOINTMENTS
                      [Eq ''id'' (JStr appointmentId)]
                      (Map.empty(''status'' := status, ''updatedAt'' \<mapsto> JStr now)) of
                 Inl _ \<Rightarrow> Inl (NotFoundError ''Appointment not found'')
               | Inr (appointment, db') \<Rightarrow> Inr (appointment, db')))"

text \<open>\<^verbatim>\<open>DELETE /:appointmentId\<close> (lines 232 to 254).\<close>

definition deleteAppointment ::
  "('k::linorder) datastore \<Rightarrow> request \<Rightarrow> js_error + (string \<times> 'k datastore)" where
  "deleteAppointment db req =
     (let appointmentId = param req ''appointmentId''
      in case store_delete_single db TABLES_APPOINTMENTS [Eq ''id'' (JStr appointmentId)] of
           Inl _ \<Rightarrow> Inl (NotFoundError ''Appointment not found'')
         | Inr (appointment, db') \<Rightarrow> Inr (''Appointment deleted successfully'', db'))"

definition route_deleteAppointment ::
  "('k::linorder) datastore \<Rightarrow> request \<Rightarrow> string response \<times> 'k datastore" where
  "route_deleteAppointment db = route (requireDoctor db) 200 (deleteAppointment db) db"

subsection \<open>Schedules\<close>

text \<open>A destructured query-string parameter: the string sent, or the default.\<close>

definition query_or :: "request \<Rightarrow> string \<Rightarrow> jsval \<Rightarrow> jsval" where
  "query_or req k d = (case query req k of None \<Rightarrow> d | Some v \<Rightarrow> JStr v)"

definition query_str :: "request \<Rightarrow> string \<Rightarrow> string \<Rightarrow> string" where
  "query_str req k d = (case query req k of None \<Rightarrow> d | Some v \<Rightarrow> v)"

text \<open>A query-string parameter used as a condition: present and not empty.\<close>

definition given :: "request \<Rightarrow> string \<Rightarrow> string option" where
  "given req k = (case query req k of Some v \<Rightarrow> if v \<noteq> [] then Some v else None | None \<Rightarrow> None)"

definition eq_if_given :: "request \<Rightarrow> string \<Rightarrow> string \<Rightarrow> clause list" where
  "eq_if_given req k col = (case given req k of Some v \<Rightarrow> [Eq col (JStr v)] | None \<Rightarrow> [])"

text \<open>
  \<^verbatim>\<open>GET /today/schedule\<close> (lines 257 to 290). \<open>today\<close> is the date part of the clock's ISO
  string.
\<close>

definition today_query :: "string \<Rightarrow> request \<Rightarrow> sel_query" where
  "today_query today req =
     \<lparr>sel_table = TABLES_APPOINTMENTS,
      sel_filters =
        [Eq ''appointmentDate'' (JStr today),
         In ''status'' [JStr ''scheduled'', JStr ''confirmed'', JStr ''in-progress'']]
        @ eq_if_given req ''doctorId'' ''doctorId'',
      sel_order = [(''appointmentTime'', True)], sel_range = None\<rparr>"

definition todaySchedule ::
  "string \<Rightarrow> ('k::linorder) datastore \<Rightarrow> request \<Rightarrow> js_error + (row list \<times> 'k datastore)" where
  "todaySchedule today db req =
     (case run_select db (today_query today req) of
        Inl _ \<Rightarrow> Inl (ValidationError ''Failed to fetch today's appointments'')
      | Inr (appointments, _) \<Rightarrow> Inr (appointments, db))"

text \<open>
  \<^verbatim>\<open>GET /upcoming/schedule\<close> (lines 293 to 330). \<open>plus_days\<close> is the calendar arithmetic of
  \<^verbatim>\<open>Date\<close>: the ISO date \<open>n\<close> days after today, or \<open>None\<close> when that day is outside the range
  of \<^verbatim>\<open>Date\<close>. When \<^verbatim>\<open>parseInt(days)\<close> is NaN or the day is out of range, the end date is
  invalid and \<^verbatim>\<open>toISOString\<close> throws a RangeError. The result is \<open>None\<close> when \<^verbatim>\<open>days\<close> is
  outside what \<open>parseInt\<close> models.
\<close>

definition RangeError :: "string \<Rightarrow> js_error" where
  "RangeError msg =
     \<lparr>err_name = ''RangeError'', err_code = None, err_status = None, err_message = msg\<rparr>"

definition upcoming_query :: "string \<Rightarrow> string \<Rightarrow> request \<Rightarrow> sel_query" where
  "upcoming_query today endDate req =
     \<lparr>sel_table = TABLES_APPOINTMENTS,
      sel_filters =
        [Gte ''appointmentDate'' (JStr today),
         Lte ''appointmentDate'' (JStr endDate),
         In ''status'' [JStr ''scheduled'', JStr ''confirmed'']]
        @ eq_if_given req ''doctorId'' ''doctorId'',
      sel_order = [(''appointmentDate'', True), (''appointmentTime'', True)],
      sel_range = None\<rparr>"

definition upcomingSchedule ::
  "string \<Rightarrow> (int \<Rightarrow> string option) \<Rightarrow> ('k::linorder) datastore \<Rightarrow> request \<Rightarrow>
   (js_error + (row list \<times> 'k datastore)) option" where
  "upcomingSchedule today plus_days db req =
     (let days = query_or req ''days'' (JNum 7)
      in case parseInt days of
           None \<Rightarrow> None
         | Some NaN \<Rightarrow> Some (Inl (RangeError ''Invalid time value''))
         | Some (Num n) \<Rightarrow>
             (case plus_days n of
                None \<Rightarrow> Some (Inl (RangeError ''Invalid time value''))
              | Some endDate \<Rightarrow>
                  (case run_select db (upcoming_query today endDate req) of
                     Inl _ \<Rightarrow> Some (Inl (ValidationError ''Failed to fetch upcoming appointments''))
                   | Inr (appointments, _) \<Rightarrow> Some (Inr (appointments, db)))))"

subsection \<open>List queries\<close>

record pagination =
  currentPage :: js_number
  totalPages :: int
  totalCount :: nat
  limit :: js_number
  hasNext :: bool
  hasPrev :: bool

record listing =
  items :: "row list"
  pagination :: pagination

text \<open>
  The list handlers share their paging expressions word for word:
  \<^verbatim>\<open>offset = (page - 1) * limit\<close> and \<^verbatim>\<open>range(offset, offset + limit - 1)\<close>, then
  \<^verbatim>\<open>totalPages = Math.ceil(count / limit)\<close> and the pagination object (\<open>n_rows\<close> is the
  handler's \<^verbatim>\<open>count\<close>). The result is \<open>None\<close> when a number involved is outside the
  fragment of exact integers (see \<open>to_number\<close>, \<open>parseInt\<close> and \<open>exact\<close>).
\<close>

definition page_range :: "jsval \<Rightarrow> jsval \<Rightarrow> (int \<times> int) option" where
  "page_range page lim =
     (case (to_number page, to_number lim) of
        (Some p, Some l) \<Rightarrow>
          (case exact ((p - 1) * l) of
             None \<Rightarrow> None
           | Some offset \<Rightarrow>
               (case Option.bind (js_plus offset lim) to_number of
                  None \<Rightarrow> None
                | Some e \<Rightarrow> Some (offset, e - 1)))
      | _ \<Rightarrow> None)"

definition pagination_of :: "jsval \<Rightarrow> jsval \<Rightarrow> nat \<Rightarrow> pagination option" where
  "pagination_of page lim n_rows =
     (case (to_number page, to_number lim) of
        (Some p, Some l) \<Rightarrow>
          (case (Option.bind (exact (int n_rows)) (\<lambda>c. ceil_div c l), parseInt page, parseInt lim) of
             (Some tp, Some cp, Some lp) \<Rightarrow>
               Some \<lparr>currentPage = cp, totalPages = tp, totalCount = n_rows,
                     limit = lp, hasNext = (p < tp), hasPrev = (p > 1)\<rparr>
           | _ \<Rightarrow> None)
      | _ \<Rightarrow> None)"

text \<open>
  \<^verbatim>\<open>GET /\<close> of the appointment routes (lines 32 to 104). The result carries the queries sent
  to the store, in order, and what the handler returns or throws.
\<close>

definition appointments_filters :: "request \<Rightarrow> clause list" where
  "appointments_filters req =
     eq_if_given req ''status'' ''status'' @ eq_if_given req ''doctorId'' ''doctorId''
     @ eq_if_given req ''patientId'' ''patientId'' @ eq_if_given req ''date'' ''appointmentDate''
     @ eq_if_given req ''type'' ''type''"

definition appointments_list_query :: "request \<Rightarrow> (int \<times> int) \<Rightarrow> sel_query" where
  "appointments_list_query req rng =
     \<lparr>sel_table = TABLES_APPOINTMENTS,
      sel_filters = appointments_filters req,
      sel_order =
        [(query_str req ''sortBy'' ''appointmentDate'', query_str req ''sortOrder'' ''asc'' = ''asc'')],
      sel_range = Some rng\<rparr>"

definition run_list ::
  "('k::linorder) datastore \<Rightarrow> sel_query \<Rightarrow> string \<Rightarrow> jsval \<Rightarrow> jsval \<Rightarrow>
   (sel_query list \<times> (js_error + listing)) option" where
  "run_list db q msg page lim =
     (case run_select db q of
        Inl _ \<Rightarrow> Some ([q], Inl (ValidationError msg))
      | Inr (rs, n_rows) \<Rightarrow>
          map_option (\<lambda>pg. ([q], Inr \<lparr>items = rs, pagination = pg\<rparr>))
            (pagination_of page lim n_rows))"

definition listAppointments ::
  "('k::linorder) datastore \<Rightarrow> request \<Rightarrow> (sel_query list \<times> (js_error + listing)) option" where
  "listAppointments db req =
     (let page = query_or req ''page'' (JNum 1);
          lim = query_or req ''limit'' (JNum 20)
      in case page_range page lim of
           None \<Rightarrow> None
         | Some rng \<Rightarrow>
             run_list db (appointments_list_query req rng) ''Failed to fetch appointments'' page lim)"

text \<open>
  \<^verbatim>\<open>GET /\<close> of the patient routes (patients.js, lines 34 to 94). The search text is spliced
  into the string of the or-filter as it is. For a text of ASCII letters and digits the
  store reads the three pattern clauses below; any other text may change or break the
  filter string, and the filters are then \<open>None\<close> (not modelled).
\<close>

definition plain_text :: "string \<Rightarrow> bool" where
  "plain_text s =
     list_all (\<lambda>c. c \<in> set ''0123456789abcdefghijklmnopqrstuvwxyzABCDEFGHIJKLMNOPQRSTUVWXYZ'') s"

definition patients_filters :: "request \<Rightarrow> clause list option" where
  "patients_filters req =
     (case given req ''search'' of
        Some search \<Rightarrow>
          if plain_text search
          then Some ([Or [ILike ''firstName'' (''%'' @ search @ ''%''),
                          ILike ''lastName'' (''%'' @ search @ ''%''),
                          ILike ''email'' (''%'' @ search @ ''%'')]]
                     @ eq_if_given req ''gender'' ''gender''
                     @ eq_if_given req ''bloodType'' ''bloodType'')
          else None
      | None \<Rightarrow>
          Some (eq_if_given req ''gender'' ''gender'' @ eq_if_given req ''bloodType'' ''bloodType''))"

definition patients_list_query :: "request \<Rightarrow> clause list \<Rightarrow> (int \<times> int) \<Rightarrow> sel_query" where
  "patients_list_query req fs rng =
     \<lparr>sel_table = TABLES_PATIENTS,
      sel_filters = fs,
      sel_order =
        [(query_str req ''sortBy'' ''createdAt'', query_str req ''sortOrder'' ''desc'' = ''asc'')],
      sel_range = Some rng\<rparr>"

definition listPatients ::
  "('k::linorder) datastore \<Rightarrow> request \<Rightarrow> (sel_query list \<times> (js_error + listing)) option" where
  "listPatients db req =
     (let page = query_or req ''page'' (JNum 1);
          lim = query_or req ''limit'' (JNum 20)
      in case (page_range page lim, patients_filters req) of
           (Some rng, Some fs) \<Rightarrow>
             run_list db (patients_list_query req fs rng) ''Failed to fetch patients'' page lim
         | _ \<Rightarrow> None)"

subsection \<open>Patient routes\<close>

text \<open>\<^verbatim>\<open>GET /:patientId\<close> (patients.js, lines 97 to 122), registered behind \<open>canAccessPatient\<close>.\<close>

definition getPatient ::
  "('k::linorder) datastore \<Rightarrow> request \<Rightarrow> js_error + (row \<times> 'k datastore)" where
  "getPatient db req =
     (let patientId = param req ''patientId''
      in case single (run_select db
                \<lparr>sel_table = TABLES_PATIENTS, sel_filters = [Eq ''id'' (JStr patientId)],
                 sel_order = [], sel_range = None\<rparr>) of
           Inl _ \<Rightarrow> Inl (NotFoundError ''Patient not found'')
         | Inr patient \<Rightarrow> Inr (patient, db))"

definition route_getPatient ::
  "('k::linorder) datastore \<Rightarrow> request \<Rightarrow> row response \<times> 'k datastore" where
  "route_getPatient db = route canAccessPatient 200 (getPatient db) db"

section \<open>The scheduling rules of the specification\<close>

text \<open>
  The specification's words, to compare the handlers with: the active set, the interval
  \<open>[time, time + duration)\<close> of an appointment in minutes of its day, strict intersection of
  two intervals on the same date, and Invariant I1 over a table.
\<close>

definition active_set :: "string list" where
  "active_set = [''scheduled'', ''confirmed'', ''in-progress'']"

definition terminal_set :: "string list" where
  "terminal_set = [''completed'', ''cancelled'', ''no-show'']"

definition spec_active :: "row \<Rightarrow> bool" where
  "spec_active r = (\<exists>s\<in>set active_set. r ''status'' = Some (JStr s))"

definition time_minutes :: "string \<Rightarrow> nat option" where
  "time_minutes s =
     (if \<not> matches_time s then None
      else (case s of
              [h, c, m1, m2] \<Rightarrow> Some (digit_val h * 60 + digit_val m1 * 10 + digit_val m2)
            | [h1, h2, c, m1, m2] \<Rightarrow>
                Some ((digit_val h1 * 10 + digit_val h2) * 60 + digit_val m1 * 10 + digit_val m2)
            | _ \<Rightarrow> None))"

definition slot :: "obj \<Rightarrow> (int \<times> int) option" where
  "slot r =
     (case (r ''appointmentTime'', r ''duration'') of
        (Some (JStr t), Some d) \<Rightarrow>
          (case (time_minutes t, to_number d) of
             (Some s, Some n) \<Rightarrow> Some (int s, int s + n)
           | _ \<Rightarrow> None)
      | _ \<Rightarrow> None)"

definition spec_intersects :: "obj \<Rightarrow> obj \<Rightarrow> bool" where
  "spec_intersects a b =
     (\<not> is_null (a ''appointmentDate'') \<and> a ''appointmentDate'' = b ''appointmentDate'' \<and>
      (case (slot a, slot b) of
         (Some (s1, e1), Some (s2, e2)) \<Rightarrow> s1 < e2 \<and> s2 < e1
       | _ \<Rightarrow> False))"

definition spec_adjacent :: "obj \<Rightarrow> obj \<Rightarrow> bool" where
  "spec_adjacent a b =
     (\<not> is_null (a ''appointmentDate'') \<and> a ''appointmentDate'' = b ''appointmentDate'' \<and>
      (case (slot a, slot b) of
         (Some (s1, e1), Some (s2, e2)) \<Rightarrow> e1 = s2 \<or> e2 = s1
       | _ \<Rightarrow> False))"

definition same_doctor :: "obj \<Rightarrow> obj \<Rightarrow> bool" where
  "same_doctor a b = (\<not> is_null (a ''doctorId'') \<and> a ''doctorId'' = b ''doctorId'')"

fun spec_I1 :: "row list \<Rightarrow> bool" where
  "spec_I1 [] = True"
| "spec_I1 (a # rs) =
     ((\<forall>b\<in>set rs. \<not> (same_doctor a b \<and> spec_active a \<and> spec_active b \<and> spec_intersects a b))
      \<and> spec_I1 rs)"

text \<open>
  What the two schedule queries select, row by row: the rows of today in one of the three
  active statuses, and the rows dated from today to the end date, in the store's order of
  dates, whose status is scheduled or confirmed; both for the doctor asked for, if any.
\<close>

definition for_doctor :: "request \<Rightarrow> row \<Rightarrow> bool" where
  "for_doctor req r =
     (case given req ''doctorId'' of None \<Rightarrow> True | Some d \<Rightarrow> r ''doctorId'' = Some (JStr d))"

definition today_selected :: "string \<Rightarrow> request \<Rightarrow> row \<Rightarrow> bool" where
  "today_selected today req r =
     (r ''appointmentDate'' = Some (JStr today) \<and>
      (\<exists>s\<in>set [''scheduled'', ''confirmed'', ''in-progress'']. r ''status'' = Some (JStr s)) \<and>
      for_doctor req r)"

definition upcoming_selected ::
  "('k::linorder) datastore \<Rightarrow> string \<Rightarrow> string \<Rightarrow> request \<Rightarrow> row \<Rightarrow> bool" where
  "upcoming_selected db today endDate req r =
     (\<not> is_null (r ''appointmentDate'') \<and>
      colkey db ''appointmentDate'' (Some (JStr today))
        \<le> colkey db ''appointmentDate'' (r ''appointmentDate'') \<and>
      colkey db ''appointmentDate'' (r ''appointmentDate'')
        \<le> colkey db ''appointmentDate'' (Some (JStr endDate)) \<and>
      (\<exists>s\<in>set [''scheduled'', ''confirmed'']. r ''status'' = Some (JStr s)) \<and>
      for_doctor req r)"

text \<open>The transition table of the specification.\<close>

definition spec_transition :: "string \<Rightarrow> string \<Rightarrow> bool" where
  "spec_transition from to =
     ((from = ''scheduled'' \<and> to \<in> set [''confirmed'', ''cancelled'', ''no-show'']) \<or>
      (from = ''confirmed'' \<and> to \<in> set [''in-progress'', ''cancelled'', ''no-show'']) \<or>
      (from = ''in-progress'' \<and> to \<in> set [''completed'', ''cancelled'']))"

section \<open>Stores and requests to run the handlers on\<close>

text \<open>
  A store that orders text by character code and numbers by value, with the schema of the
  README; and the shapes of the UUIDs and calendar dates used below, which the library's
  \<^verbatim>\<open>isUUID\<close> and \<^verbatim>\<open>isISO8601\<close> accept.
\<close>

definition bytewise_key :: "string \<Rightarrow> jsval option \<Rightarrow> nat list" where
  "bytewise_key c v =
     (case v of Some (JStr s) \<Rightarrow> map of_char s | Some (JNum n) \<Rightarrow> [nat n] | _ \<Rightarrow> [])"

definition README_schema :: "string \<rightharpoonup> string list" where
  "README_schema =
     [TABLES_USERS \<mapsto> users_columns, TABLES_PATIENTS \<mapsto> patients_columns,
      TABLES_APPOINTMENTS \<mapsto> appointments_columns]"

definition demo_store :: "row list \<Rightarrow> row list \<Rightarrow> (nat list) datastore" where
  "demo_store us as =
     \<lparr>colkey = bytewise_key, ilike = (\<lambda>pat s. False), schema = README_schema,
      rows_of = (\<lambda>t. if t = TABLES_USERS then us else if t = TABLES_APPOINTMENTS then as else [])\<rparr>"

definition uuid_shape :: "string \<Rightarrow> bool" where
  "uuid_shape s =
     (let parts = split_on CHR ''-'' s
      in map length parts = [8, 4, 4, 4, 12] \<and> list_all (list_all is_hex) parts)"

definition date_shape :: "string \<Rightarrow> bool" where
  "date_shape s =
     (let parts = split_on CHR ''-'' s
      in map length parts = [4, 2, 2] \<and> list_all (list_all is_digit) parts)"

definition demo_validators :: validators where
  "demo_validators = \<lparr>isUUID = uuid_shape, isISO8601 = date_shape\<rparr>"

definition demo_request :: request where
  "demo_request =
     \<lparr>authorization = None, params = Map.empty, query = Map.empty, body = Map.empty,
      user = None, userId = None, userRole = None\<rparr>"

definition user_row :: "string \<Rightarrow> string \<Rightarrow> row" where
  "user_row uid role = [''id'' \<mapsto> JStr uid, ''role'' \<mapsto> JStr role]"

definition D1 :: string where "D1 = ''d1d1d1d1-0000-4000-8000-000000000001''"
definition P1 :: string where "P1 = ''a1a1a1a1-0000-4000-8000-000000000002''"

definition booking :: "string \<Rightarrow> string \<Rightarrow> string \<Rightarrow> int \<Rightarrow> obj" where
  "booking doctor date time minutes =
     [''patientId'' \<mapsto> JStr P1, ''doctorId'' \<mapsto> JStr doctor, ''appointmentDate'' \<mapsto> JStr date,
      ''appointmentTime'' \<mapsto> JStr time, ''duration'' \<mapsto> JNum minutes,
      ''type'' \<mapsto> JStr ''consultation'']"

definition appt :: "string \<Rightarrow> string \<Rightarrow> string \<Rightarrow> string \<Rightarrow> int \<Rightarrow> string \<Rightarrow> row" where
  "appt aid doctor date time minutes st =
     (booking doctor date time minutes)(''id'' \<mapsto> JStr aid, ''status'' \<mapsto> JStr st)"

text \<open>The role the users table holds for a user id, as \<open>requireRole\<close> reads it.\<close>

definition stored_role :: "('k::linorder) datastore \<Rightarrow> string \<Rightarrow> string option" where
  "stored_role db uid =
     (case single (run_select db
             \<lparr>sel_table = ''users'', sel_filters = [Eq ''id'' (JStr uid)],
              sel_order = [], sel_range = None\<rparr>) of
        Inl _ \<Rightarrow> None
      | Inr p \<Rightarrow> (case p ''role'' of Some (JStr r) \<Rightarrow> Some r | _ \<Rightarrow> None))"

text \<open>The stores and requests of the examples.\<close>

definition store_completed :: "(nat list) datastore" where
  "store_completed = demo_store [] [appt ''a1'' D1 ''2024-03-01'' ''10:00'' 30 ''completed'']"

definition req_reopen :: request where
  "req_reopen =
     demo_request\<lparr>params := [''appointmentId'' \<mapsto> ''a1''], body := [''status'' \<mapsto> JStr ''scheduled'']\<rparr>"

definition store_confirmed :: "(nat list) datastore" where
  "store_confirmed = demo_store [] [appt ''a7'' D1 ''2024-03-02'' ''09:00'' 45 ''confirmed'']"

definition req_complete :: request where
  "req_complete =
     demo_request\<lparr>params := [''appointmentId'' \<mapsto> ''a7''], body := [''status'' \<mapsto> JStr ''completed'']\<rparr>"

definition store_doctor_a1 :: "(nat list) datastore" where
  "store_doctor_a1 =
     demo_store [user_row ''u-doc'' ''doctor'', user_row ''u-pat'' ''patient'']
       [appt ''a1'' D1 ''2024-03-01'' ''10:00'' 30 ''scheduled'']"

definition req_delete_as :: "string \<Rightarrow> request" where
  "req_delete_as uid =
     demo_request\<lparr>params := [''appointmentId'' \<mapsto> ''a1''], user := Some \<lparr>user_id = uid\<rparr>,
                   userId := Some uid\<rparr>"





definition req_create :: "obj \<Rightarrow> request" where
  "req_create b = demo_request\<lparr>body := b, user := Some \<lparr>user_id = ''u-doc''\<rparr>, userId := Some ''u-doc''\<rparr>"

definition body_forged :: obj where
  "body_forged =
     (booking D1 ''2024-03-08'' ''14:30'' 60)
       (''status'' \<mapsto> JStr ''completed'', ''createdBy'' \<mapsto> JStr ''someone-else'',
        ''createdAt'' \<mapsto> JStr ''1999-01-01T00:00:00.000Z'')"

definition store_one_slot :: "(nat list) datastore" where
  "store_one_slot = demo_store [] [appt ''a1'' D1 ''2024-03-01'' ''10:00'' 30 ''scheduled'']"

definition store_day :: "(nat list) datastore" where
  "store_day =
     demo_store []
       [appt ''a1'' D1 ''2024-03-01'' ''14:00'' 30 ''in-progress'',
        appt ''a2'' D1 ''2024-03-03'' ''09:00'' 30 ''scheduled'',
        appt ''a3'' D1 ''2024-03-01'' ''08:00'' 30 ''confirmed'',
        appt ''a4'' D1 ''2024-03-01'' ''07:00'' 30 ''cancelled'']"

definition req_schedule :: request where
  "req_schedule = demo_request\<lparr>query := [''doctorId'' \<mapsto> D1]\<rparr>"

text \<open>
  The calendar arithmetic of the examples: the day \<open>n\<close> days after 2024-03-01, for the days
  of that month (the examples use no other).
\<close>

definition march_plus_days :: "int \<Rightarrow> string option" where
  "march_plus_days n =
     (if 0 \<le> n \<and> n \<le> 30
      then Some (''2024-03-'' @ (if n + 1 < 10 then ''0'' else []) @ show_int (n + 1))
      else None)"

definition store_45 :: "(nat list) datastore" where
  "store_45 =
     demo_store []
       (map (\<lambda>i. appt (''a'' @ show_nat i) D1 ''2024-03-01'' ''10:00'' 30 ''cancelled'') [1..<46])"

definition req_page3 :: request where
  "req_page3 = demo_request\<lparr>query := [''page'' \<mapsto> ''3'', ''limit'' \<mapsto> ''20'']\<rparr>"


text \<open>
  A patient's request for their own record: the token is valid and belongs to user P1, whose
  stored role is patient.
\<close>

definition store_patient_user :: "(nat list) datastore" where
  "store_patient_user = demo_store [user_row P1 ''patient''] []"

definition req_own_record :: request where
  "req_own_record =
     demo_request\<lparr>authorization := Some ''Bearer token-of-P1'', params := [''patientId'' \<mapsto> P1]\<rparr>"

definition verify_ok :: "string \<Rightarrow> jwt_error option" where
  "verify_ok t = None"

definition getUser_P1 :: "string \<Rightarrow> getUser_result" where
  "getUser_P1 t = Answer False (Some \<lparr>user_id = P1\<rparr>)"

definition req_own_authenticated :: request where
  "req_own_authenticated = req_own_record\<lparr>user := Some \<lparr>user_id = P1\<rparr>, userId := Some P1\<rparr>"

section \<open>Facts about the store calls\<close>

lemma matches_id: "matches db [Eq ''id'' (JStr a)] = (\<lambda>r. r ''id'' = Some (JStr a))"
  by (rule ext) (simp add: matches_def)

lemma matches_id_app: "matches db [Eq ''id'' (JStr a)] r = (r ''id'' = Some (JStr a))"
  by (simp add: matches_def)

lemma id_in_appointments_columns: "''id'' \<in> set appointments_columns"
  by (simp add: appointments_columns_def)

lemma store_update_single_id:
  assumes "schema db TABLES_APPOINTMENTS = Some appointments_columns"
    and "dom data \<subseteq> set appointments_columns"
    and "data ''id'' = None"
  shows "store_update_single db TABLES_APPOINTMENTS [Eq ''id'' (JStr a)] data =
     (case filter (\<lambda>r. r ''id'' = Some (JStr a)) (rows_of db TABLES_APPOINTMENTS) of
        [r] \<Rightarrow> Inr (r ++ data,
                 db\<lparr>rows_of := (rows_of db)(TABLES_APPOINTMENTS :=
                       map (\<lambda>x. if x ''id'' = Some (JStr a) then x ++ data else x)
                         (rows_of db TABLES_APPOINTMENTS))\<rparr>)
      | _ \<Rightarrow> Inl ''not a single row'')"
proof -
  have key: "\<not> (is_null ((r ++ data) ''id'') \<or>
      (\<exists>x\<in>set (rows_of db TABLES_APPOINTMENTS).
          x ''id'' \<noteq> Some (JStr a) \<and> x ''id'' = (r ++ data) ''id''))"
    if "r ''id'' = Some (JStr a)" for r
    using that assms(3) by (simp add: map_add_def is_null_def)
  show ?thesis
  proof (cases "filter (\<lambda>r. r ''id'' = Some (JStr a)) (rows_of db TABLES_APPOINTMENTS)")
    case Nil
    then show ?thesis
      using assms(1,2) id_in_appointments_columns
      by (simp add: store_update_single_def matches_id matches_id_app)
  next
    case (Cons r rs)
    then have "r \<in> set (filter (\<lambda>r. r ''id'' = Some (JStr a)) (rows_of db TABLES_APPOINTMENTS))"
      by simp
    then have rid: "r ''id'' = Some (JStr a)" by simp
    show ?thesis
    proof (cases rs)
      case Nil
      with Cons key [of r, OF rid] show ?thesis
        using assms(1,2) id_in_appointments_columns
        by (simp add: store_update_single_def matches_id matches_id_app)
    next
      case (Cons r' rs')
      with \<open>filter _ _ = r # rs\<close> show ?thesis
        using assms(1,2) id_in_appointments_columns
        by (simp add: store_update_single_def matches_id matches_id_app)
    qed
  qed
qed

lemma status_update_id: "[''status'' \<mapsto> JStr s, ''updatedAt'' \<mapsto> JStr now] ''id'' = None"
  by simp

lemma status_update_dom:
  "dom [''status'' \<mapsto> JStr s, ''updatedAt'' \<mapsto> JStr now] \<subseteq> set appointments_columns"
  by (simp add: appointments_columns_def)

lemma add_status_update:
  "x ++ [''status'' \<mapsto> JStr s, ''updatedAt'' \<mapsto> JStr now] =
   x(''status'' \<mapsto> JStr s, ''updatedAt'' \<mapsto> JStr now)"
  by simp

lemma demo_store_schema:
  "schema (demo_store us as) TABLES_APPOINTMENTS = Some appointments_columns"
  by (simp add: demo_store_def README_schema_def TABLES_APPOINTMENTS_def TABLES_USERS_def
      TABLES_PATIENTS_def)

lemma demo_store_appointments: "rows_of (demo_store us as) TABLES_APPOINTMENTS = as"
  by (simp add: demo_store_def TABLES_APPOINTMENTS_def TABLES_USERS_def)

lemma demo_store_users: "rows_of (demo_store us as) ''users'' = us"
  by (simp add: demo_store_def TABLES_USERS_def)

lemma demo_store_users_schema: "schema (demo_store us as) ''users'' = Some users_columns"
  by (simp add: demo_store_def README_schema_def TABLES_USERS_def TABLES_PATIENTS_def
      TABLES_APPOINTMENTS_def)

lemma exact_30 [simp]: "exact 30 = Some 30" "exact 60 = Some 60" "exact 15 = Some 15"
  by (simp_all add: exact_def MAX_SAFE_INTEGER_def)

section \<open>Status updates\<close>

lemma updateAppointmentStatus_written:
  assumes "schema db TABLES_APPOINTMENTS = Some appointments_columns"
    and "filter (\<lambda>r. r ''id'' = Some (JStr (param req ''appointmentId'')))
           (rows_of db TABLES_APPOINTMENTS) = [a]"
    and "body req ''status'' = Some (JStr s)"
    and "s \<in> set appointment_statuses"
  shows "updateAppointmentStatus now db req =
           Inr (a(''status'' \<mapsto> JStr s, ''updatedAt'' \<mapsto> JStr now),
                db\<lparr>rows_of := (rows_of db)(TABLES_APPOINTMENTS :=
                      map (\<lambda>x. if x ''id'' = Some (JStr (param req ''appointmentId''))
                                then x(''status'' \<mapsto> JStr s, ''updatedAt'' \<mapsto> JStr now) else x)
                        (rows_of db TABLES_APPOINTMENTS))\<rparr>)"
proof -
  have valid: "\<exists>t\<in>set appointment_statuses. body req ''status'' = Some (JStr t)"
    using assms(3,4) by blast
  have upd: "Map.empty(''status'' := body req ''status'', ''updatedAt'' \<mapsto> JStr now)
               = [''status'' \<mapsto> JStr s, ''updatedAt'' \<mapsto> JStr now]"
    using assms(3) by simp
  show ?thesis
    unfolding updateAppointmentStatus_def Let_def upd
      store_update_single_id [OF assms(1) status_update_dom status_update_id] assms(2) add_status_update
    using valid by simp
qed

lemma updateAppointmentStatus_missing:
  assumes "schema db TABLES_APPOINTMENTS = Some appointments_columns"
    and "filter (\<lambda>r. r ''id'' = Some (JStr (param req ''appointmentId'')))
           (rows_of db TABLES_APPOINTMENTS) = []"
    and "body req ''status'' = Some (JStr s)"
    and "s \<in> set appointment_statuses"
  shows "updateAppointmentStatus now db req = Inl (NotFoundError ''Appointment not found'')"
proof -
  have valid: "\<exists>t\<in>set appointment_statuses. body req ''status'' = Some (JStr t)"
    using assms(3,4) by blast
  have upd: "Map.empty(''status'' := body req ''status'', ''updatedAt'' \<mapsto> JStr now)
               = [''status'' \<mapsto> JStr s, ''updatedAt'' \<mapsto> JStr now]"
    using assms(3) by simp
  show ?thesis
    unfolding updateAppointmentStatus_def Let_def upd
      store_update_single_id [OF assms(1) status_update_dom status_update_id] assms(2)
    using valid by simp
qed

text \<open>
  Claim C2, as the handler has it. \<^verbatim>\<open>PATCH /:appointmentId/status\<close> has no transition table:
  a status outside the six names fails with a ValidationError; any of the six names is
  written to the appointment with that id whatever its current status is (terminal or not),
  together with \<open>updatedAt\<close>; and when no appointment has that id the request fails with a
  NotFoundError. No request fails because of the current status.
\<close>

theorem updateStatus_unconditional:
  assumes "schema db TABLES_APPOINTMENTS = Some appointments_columns"
  shows "(\<not> (\<exists>t\<in>set appointment_statuses. body req ''status'' = Some (JStr t)) \<longrightarrow>
            updateAppointmentStatus now db req = Inl (ValidationError ''Invalid appointment status''))
       \<and> (s \<in> set appointment_statuses \<and> body req ''status'' = Some (JStr s) \<and>
          filter (\<lambda>r. r ''id'' = Some (JStr (param req ''appointmentId'')))
            (rows_of db TABLES_APPOINTMENTS) = [a] \<longrightarrow>
            updateAppointmentStatus now db req =
              Inr (a(''status'' \<mapsto> JStr s, ''updatedAt'' \<mapsto> JStr now),
                   db\<lparr>rows_of := (rows_of db)(TABLES_APPOINTMENTS :=
                         map (\<lambda>x. if x ''id'' = Some (JStr (param req ''appointmentId''))
                                   then x(''status'' \<mapsto> JStr s, ''updatedAt'' \<mapsto> JStr now) else x)
                           (rows_of db TABLES_APPOINTMENTS))\<rparr>))
       \<and> (s \<in> set appointment_statuses \<and> body req ''status'' = Some (JStr s) \<and>
          filter (\<lambda>r. r ''id'' = Some (JStr (param req ''appointmentId'')))
            (rows_of db TABLES_APPOINTMENTS) = [] \<longrightarrow>
            updateAppointmentStatus now db req = Inl (NotFoundError ''Appointment not found''))"
proof (intro conjI impI)
  assume "\<not> (\<exists>t\<in>set appointment_statuses. body req ''status'' = Some (JStr t))"
  then show "updateAppointmentStatus now db req = Inl (ValidationError ''Invalid appointment status'')"
    by (simp add: updateAppointmentStatus_def)
next
  assume "s \<in> set appointment_statuses \<and> body req ''status'' = Some (JStr s) \<and>
          filter (\<lambda>r. r ''id'' = Some (JStr (param req ''appointmentId'')))
            (rows_of db TABLES_APPOINTMENTS) = [a]"
  then show "updateAppointmentStatus now db req =
              Inr (a(''status'' \<mapsto> JStr s, ''updatedAt'' \<mapsto> JStr now),
                   db\<lparr>rows_of := (rows_of db)(TABLES_APPOINTMENTS :=
                         map (\<lambda>x. if x ''id'' = Some (JStr (param req ''appointmentId''))
                                   then x(''status'' \<mapsto> JStr s, ''updatedAt'' \<mapsto> JStr now) else x)
                           (rows_of db TABLES_APPOINTMENTS))\<rparr>)"
    using updateAppointmentStatus_written [OF assms] by blast
next
  assume "s \<in> set appointment_statuses \<and> body req ''status'' = Some (JStr s) \<and>
          filter (\<lambda>r. r ''id'' = Some (JStr (param req ''appointmentId'')))
            (rows_of db TABLES_APPOINTMENTS) = []"
  then show "updateAppointmentStatus now db req = Inl (NotFoundError ''Appointment not found'')"
    using updateAppointmentStatus_missing [OF assms] by blast
qed

text \<open>
  The theorem at a confirmed appointment asked to become completed, a pair the transition
  table of the specification does not have: the request succeeds.
\<close>

theorem updateStatus_unconditional_witness:
  "schema store_confirmed TABLES_APPOINTMENTS = Some appointments_columns
   \<and> ''completed'' \<in> set appointment_statuses
   \<and> \<not> spec_transition ''confirmed'' ''completed''
   \<and> \<not> isl (updateAppointmentStatus ''2024-03-02T09:50:00.000Z'' store_confirmed req_complete)"
proof -
  let ?a = "appt ''a7'' D1 ''2024-03-02'' ''09:00'' 45 ''confirmed''"
  have h1: "schema store_confirmed TABLES_APPOINTMENTS = Some appointments_columns"
    by (simp add: store_confirmed_def demo_store_schema)
  have h2: "filter (\<lambda>r. r ''id'' = Some (JStr (param req_complete ''appointmentId'')))
              (rows_of store_confirmed TABLES_APPOINTMENTS) = [?a]"
    by (simp add: store_confirmed_def demo_store_appointments req_complete_def demo_request_def
        param_def appt_def)
  have h3: "body req_complete ''status'' = Some (JStr ''completed'')"
    by (simp add: req_complete_def demo_request_def)
  have h4: "''completed'' \<in> set appointment_statuses"
    by (simp add: appointment_statuses_def)
  have h5: "\<not> spec_transition ''confirmed'' ''completed''"
    by (simp add: spec_transition_def)
  show ?thesis
    using h1 h2 h3 h4 h5
      updateStatus_unconditional [OF h1, where s = "''completed''" and req = req_complete
        and a = ?a and now = "''2024-03-02T09:50:00.000Z''"]
    by simp
qed

text \<open>
  Claim C2 as stated fails: a completed appointment (a terminal status) is set back to
  scheduled, a pair outside the transition table, and the request succeeds.
\<close>

theorem updateStatus_terminal_counterexample:
  "\<not> spec_transition ''completed'' ''scheduled''
   \<and> map (\<lambda>r. r ''status'') (rows_of store_completed TABLES_APPOINTMENTS)
       = [Some (JStr ''completed'')]
   \<and> \<not> isl (updateAppointmentStatus ''2024-03-05T08:00:00.000Z'' store_completed req_reopen)
   \<and> map (\<lambda>r. r ''status'')
        (rows_of (snd (projr (updateAppointmentStatus ''2024-03-05T08:00:00.000Z''
                                store_completed req_reopen)))
           TABLES_APPOINTMENTS) = [Some (JStr ''scheduled'')]"
proof -
  let ?a = "appt ''a1'' D1 ''2024-03-01'' ''10:00'' 30 ''completed''"
  have h1: "schema store_completed TABLES_APPOINTMENTS = Some appointments_columns"
    by (simp add: store_completed_def demo_store_schema)
  have h2: "filter (\<lambda>r. r ''id'' = Some (JStr (param req_reopen ''appointmentId'')))
              (rows_of store_completed TABLES_APPOINTMENTS) = [?a]"
    by (simp add: store_completed_def demo_store_appointments req_reopen_def demo_request_def
        param_def appt_def)
  have h3: "body req_reopen ''status'' = Some (JStr ''scheduled'')"
    by (simp add: req_reopen_def demo_request_def)
  have h4: "''scheduled'' \<in> set appointment_statuses"
    by (simp add: appointment_statuses_def)
  have rows: "rows_of store_completed TABLES_APPOINTMENTS = [?a]"
    by (simp add: store_completed_def demo_store_appointments)
  have st: "?a ''status'' = Some (JStr ''completed'')" "?a ''id'' = Some (JStr ''a1'')"
    by (simp_all add: appt_def)
  have p: "param req_reopen ''appointmentId'' = ''a1''"
    by (simp add: req_reopen_def demo_request_def param_def)
  show ?thesis
    unfolding updateAppointmentStatus_written [OF h1 h2 h3 h4]
    by (simp add: rows st p spec_transition_def)
qed

section \<open>The ownership gate and authentication\<close>

text \<open>
  The gate on its own: for a request that names a patient in its path, \<open>canAccessPatient\<close>
  lets the request through exactly when \<open>req.userRole\<close> is admin or doctor, or it is patient
  and \<open>req.userId\<close> is the patient id of the path; every other request is answered 403.
\<close>

lemma canAccessPatient_table:
  assumes "params req ''patientId'' = Some p" and "p \<noteq> []"
  shows "((canAccessPatient req = Next req) =
            (userRole req = Some ''admin'' \<or> userRole req = Some ''doctor'' \<or>
             (userRole req = Some ''patient'' \<and> userId req = Some p)))
       \<and> (canAccessPatient req \<noteq> Next req \<longrightarrow>
            canAccessPatient req = Respond 403 ''Access denied'')"
  using assms by (auto simp: canAccessPatient_def)

text \<open>
  \<open>req.userRole\<close> is assigned by \<open>requireRole\<close> only: \<open>authenticateToken\<close> sets \<open>req.user\<close> and
  \<open>req.userId\<close> and leaves the role as it finds it. The patient routes put \<open>canAccessPatient\<close>
  right after the authentication, so the gate finds no role and lets no request through.
\<close>

lemma authenticateToken_keeps_userRole:
  assumes "authenticateToken jwt_verify getUser req = Next req'"
  shows "userRole req' = userRole req"
  using assms
  by (auto simp: authenticateToken_def Let_def
      split: option.splits if_splits getUser_result.splits)

lemma gate_after_authentication:
  assumes "userRole req = None" and "authenticateToken jwt_verify getUser req = Next req'"
  shows "canAccessPatient req' \<noteq> Next req'"
proof -
  have "userRole req' = None"
    using authenticateToken_keeps_userRole [OF assms(2)] assms(1) by simp
  then show ?thesis by (simp add: canAccessPatient_def Let_def)
qed

lemma split_bearer: "split_on CHR '' '' ''Bearer token-of-P1'' = [''Bearer'', ''token-of-P1'']"
  by simp

text \<open>
  Claim C4 at a patient asking for their own record. The principal P1 presents a valid
  token and is stored with the role patient; the request is \<^verbatim>\<open>GET /patients/P1\<close>.
  \<open>authenticateToken\<close> passes the request on with \<open>req.userId = P1\<close> and no \<open>req.userRole\<close>;
  the route's only middleware is \<open>canAccessPatient\<close>, which finds no role and answers 403
  \<open>Access denied\<close>, so the route answers 403 where the claim says the request succeeds.
  The route answers the same when the request reaches it as it came in.
\<close>

theorem patient_own_record_refused:
  "authenticateToken verify_ok getUser_P1 req_own_record = Next req_own_authenticated
   \<and> stored_role store_patient_user P1 = Some ''patient''
   \<and> userId req_own_authenticated = Some P1
   \<and> params req_own_authenticated ''patientId'' = Some P1
   \<and> userRole req_own_authenticated = None
   \<and> canAccessPatient req_own_authenticated = Respond 403 ''Access denied''
   \<and> fst (route_getPatient store_patient_user req_own_authenticated)
        = ErrorResponse 403 ''Access denied''
   \<and> fst (route_getPatient store_patient_user req_own_record)
        = ErrorResponse 403 ''Access denied''"
proof -
  have ne: "P1 \<noteq> []" by (simp add: P1_def)
  have a: "authenticateToken verify_ok getUser_P1 req_own_record = Next req_own_authenticated"
    by (simp add: authenticateToken_def req_own_record_def req_own_authenticated_def
        demo_request_def verify_ok_def getUser_P1_def split_bearer nth_opt_def)
  have r: "stored_role store_patient_user P1 = Some ''patient''"
    by (simp add: stored_role_def run_select_def store_patient_user_def demo_store_users
        demo_store_users_schema sel_cols_def users_columns_def matches_def user_row_def
        single_def)
  have u: "userId req_own_authenticated = Some P1"
    "params req_own_authenticated ''patientId'' = Some P1"
    "userRole req_own_authenticated = None"
    by (simp_all add: req_own_authenticated_def req_own_record_def demo_request_def)
  have g: "canAccessPatient req_own_authenticated = Respond 403 ''Access denied''"
    using ne by (simp add: canAccessPatient_def u)
  have h: "fst (route_getPatient store_patient_user req_own_authenticated)
        = ErrorResponse 403 ''Access denied''"
    by (simp add: route_getPatient_def route_def g)
  have h': "fst (route_getPatient store_patient_user req_own_record)
        = ErrorResponse 403 ''Access denied''"
    using ne
    by (simp add: route_getPatient_def route_def canAccessPatient_def req_own_record_def
        demo_request_def)
  from a r u g h h' show ?thesis by simp
qed

text \<open>
  Claim C5 at a request whose token \<^verbatim>\<open>jwt.verify\<close> rejects as expired:
  \<open>authenticateToken\<close> answers 403, the code of Forbidden, while the error handler of the
  same repository gives the same error the code 401.
\<close>

theorem authenticateToken_expired_403:
  "authenticateToken (\<lambda>t. Some TokenExpiredError) getUser
     (demo_request\<lparr>authorization := Some ''Bearer abc''\<rparr>) = Respond 403 ''Invalid token''
   \<and> errorHandler (jwt_error_obj TokenExpiredError) = 401"
  by (simp add: authenticateToken_def demo_request_def nth_opt_def errorHandler_def
      jwt_error_obj_def)


section \<open>Deleting an appointment\<close>

lemma requireRole_stored:
  "user req = Some u \<Longrightarrow> stored_role db (user_id u) = Some r \<Longrightarrow>
   requireRole roles db req =
     (if r \<in> set roles then Next (req\<lparr>userRole := Some r\<rparr>)
      else Respond 403 ''Insufficient permissions'')"
  by (auto simp: requireRole_def stored_role_def split: option.splits sum.splits jsval.splits)

lemma store_delete_single_id:
  assumes "schema db TABLES_APPOINTMENTS = Some appointments_columns"
  shows "store_delete_single db TABLES_APPOINTMENTS [Eq ''id'' (JStr a)] =
     (case filter (\<lambda>r. r ''id'' = Some (JStr a)) (rows_of db TABLES_APPOINTMENTS) of
        [r] \<Rightarrow> Inr (r,
                 db\<lparr>rows_of := (rows_of db)(TABLES_APPOINTMENTS :=
                       filter (\<lambda>x. x ''id'' \<noteq> Some (JStr a)) (rows_of db TABLES_APPOINTMENTS))\<rparr>)
      | _ \<Rightarrow> Inl ''not a single row'')"
  using assms id_in_appointments_columns
  by (simp add: store_delete_single_def matches_id matches_id_app cong: list.case_cong)

lemma param_userRole [simp]: "param (req\<lparr>userRole := x\<rparr>) k = param req k"
  by (simp add: param_def)

lemma route_deleteAppointment_allowed:
  assumes "user req = Some u" and "stored_role db (user_id u) = Some r"
    and "r \<in> set [''doctor'', ''admin'']"
    and "schema db TABLES_APPOINTMENTS = Some appointments_columns"
    and "filter (\<lambda>x. x ''id'' = Some (JStr (param req ''appointmentId'')))
           (rows_of db TABLES_APPOINTMENTS) = [a]"
  shows "route_deleteAppointment db req =
           (Success 200 ''Appointment deleted successfully'',
            db\<lparr>rows_of := (rows_of db)(TABLES_APPOINTMENTS :=
                  filter (\<lambda>x. x ''id'' \<noteq> Some (JStr (param req ''appointmentId'')))
                    (rows_of db TABLES_APPOINTMENTS))\<rparr>)"
  using assms(3,5)
  by (simp add: route_deleteAppointment_def route_def requireDoctor_def
      requireRole_stored [OF assms(1,2)] deleteAppointment_def
      store_delete_single_id [OF assms(4)])

lemma route_deleteAppointment_refused:
  assumes "user req = Some u" and "stored_role db (user_id u) = Some r"
    and "r \<notin> set [''doctor'', ''admin'']"
  shows "route_deleteAppointment db req = (ErrorResponse 403 ''Insufficient permissions'', db)"
  using assms(3)
  by (simp add: route_deleteAppointment_def route_def requireDoctor_def
      requireRole_stored [OF assms(1,2)])

text \<open>
  Claim C10, as the route has it. \<^verbatim>\<open>DELETE /:appointmentId\<close> is gated by \<open>requireDoctor\<close>,
  that is by the roles doctor and admin: a principal whose stored role is doctor or admin
  removes the appointment with the given id, and a principal with any other role is answered
  403 and the table is left as it was.
\<close>

theorem delete_gate_doctor_or_admin:
  assumes "user req = Some u" and "stored_role db (user_id u) = Some r"
    and "schema db TABLES_APPOINTMENTS = Some appointments_columns"
  shows "(r \<in> set [''doctor'', ''admin''] \<and>
          filter (\<lambda>x. x ''id'' = Some (JStr (param req ''appointmentId'')))
            (rows_of db TABLES_APPOINTMENTS) = [a] \<longrightarrow>
          route_deleteAppointment db req =
            (Success 200 ''Appointment deleted successfully'',
             db\<lparr>rows_of := (rows_of db)(TABLES_APPOINTMENTS :=
                   filter (\<lambda>x. x ''id'' \<noteq> Some (JStr (param req ''appointmentId'')))
                     (rows_of db TABLES_APPOINTMENTS))\<rparr>))
       \<and> (r \<notin> set [''doctor'', ''admin''] \<longrightarrow>
          route_deleteAppointment db req = (ErrorResponse 403 ''Insufficient permissions'', db))"
  using route_deleteAppointment_allowed [OF assms(1,2) _ assms(3)]
    route_deleteAppointment_refused [OF assms(1,2)]
  by blast

lemma stored_role_doctor: "stored_role store_doctor_a1 ''u-doc'' = Some ''doctor''"
  by (simp add: stored_role_def run_select_def store_doctor_a1_def demo_store_users
      demo_store_users_schema sel_cols_def users_columns_def matches_def user_row_def single_def)

lemma stored_role_patient: "stored_role store_doctor_a1 ''u-pat'' = Some ''patient''"
  by (simp add: stored_role_def run_select_def store_doctor_a1_def demo_store_users
      demo_store_users_schema sel_cols_def users_columns_def matches_def user_row_def single_def)

lemma store_doctor_a1_rows:
  "rows_of store_doctor_a1 TABLES_APPOINTMENTS = [appt ''a1'' D1 ''2024-03-01'' ''10:00'' 30 ''scheduled'']"
  by (simp add: store_doctor_a1_def demo_store_appointments)

lemma appt_id [simp]: "appt aid d dt t n st ''id'' = Some (JStr aid)"
  by (simp add: appt_def)

lemma req_delete_as_parts:
  "user (req_delete_as uid) = Some \<lparr>user_id = uid\<rparr>"
  "param (req_delete_as uid) ''appointmentId'' = ''a1''"
  by (simp_all add: req_delete_as_def demo_request_def param_def)

text \<open>The theorem at a patient principal: the delete is refused with 403.\<close>

theorem delete_gate_doctor_or_admin_witness:
  "fst (route_deleteAppointment store_doctor_a1 (req_delete_as ''u-pat''))
     = ErrorResponse 403 ''Insufficient permissions''
   \<and> rows_of (snd (route_deleteAppointment store_doctor_a1 (req_delete_as ''u-pat'')))
        TABLES_APPOINTMENTS = rows_of store_doctor_a1 TABLES_APPOINTMENTS"
proof -
  have h1: "user (req_delete_as ''u-pat'') = Some \<lparr>user_id = ''u-pat''\<rparr>"
    by (rule req_delete_as_parts)
  have h2: "stored_role store_doctor_a1 (user_id \<lparr>user_id = ''u-pat''\<rparr>) = Some ''patient''"
    by (simp add: stored_role_patient)
  have h3: "schema store_doctor_a1 TABLES_APPOINTMENTS = Some appointments_columns"
    by (simp add: store_doctor_a1_def demo_store_schema)
  have h4: "''patient'' \<notin> set [''doctor'', ''admin'']" by simp
  from delete_gate_doctor_or_admin [OF h1 h2 h3] h4
  have "route_deleteAppointment store_doctor_a1 (req_delete_as ''u-pat'')
          = (ErrorResponse 403 ''Insufficient permissions'', store_doctor_a1)"
    by blast
  then show ?thesis by simp
qed

text \<open>
  Claim C10 as stated fails: a principal whose role is doctor, not admin, deletes an
  appointment; the answer is 200 and the row is gone.
\<close>

theorem delete_by_doctor_counterexample:
  "stored_role store_doctor_a1 ''u-doc'' = Some ''doctor''
   \<and> fst (route_deleteAppointment store_doctor_a1 (req_delete_as ''u-doc''))
       = Success 200 ''Appointment deleted successfully''
   \<and> rows_of (snd (route_deleteAppointment store_doctor_a1 (req_delete_as ''u-doc'')))
        TABLES_APPOINTMENTS = []"
proof -
  have h1: "user (req_delete_as ''u-doc'') = Some \<lparr>user_id = ''u-doc''\<rparr>"
    by (rule req_delete_as_parts)
  have h2: "stored_role store_doctor_a1 (user_id \<lparr>user_id = ''u-doc''\<rparr>) = Some ''doctor''"
    by (simp add: stored_role_doctor)
  have h3: "schema store_doctor_a1 TABLES_APPOINTMENTS = Some appointments_columns"
    by (simp add: store_doctor_a1_def demo_store_schema)
  have h4: "''doctor'' \<in> set [''doctor'', ''admin'']" by simp
  have h5: "filter (\<lambda>x. x ''id'' = Some (JStr (param (req_delete_as ''u-doc'') ''appointmentId'')))
              (rows_of store_doctor_a1 TABLES_APPOINTMENTS)
            = [appt ''a1'' D1 ''2024-03-01'' ''10:00'' 30 ''scheduled'']"
    by (simp add: req_delete_as_parts store_doctor_a1_rows)
  show ?thesis
    unfolding route_deleteAppointment_allowed [OF h1 h2 h4 h3 h5]
    by (simp add: stored_role_doctor req_delete_as_parts store_doctor_a1_rows)
qed


section \<open>Full-field updates\<close>








lemma slot_booking [simp]:
  "slot ((booking d dt t n)(''id'' \<mapsto> i, ''status'' \<mapsto> s)) = slot (booking d dt t n)"
  by (simp add: slot_def)

lemma time_minutes_examples:
  "time_minutes ''10:00'' = Some 600" "time_minutes ''10:15'' = Some 615"
  "time_minutes ''10:30'' = Some 630" "time_minutes ''11:00'' = Some 660"
  by (simp_all add: time_minutes_def matches_time_def is_digit_def digit_val_def)


section \<open>Creating an appointment\<close>

lemma conflict_query_unsat: "filter (matches db (sel_filters (conflict_query d))) rs = []"
  by (induction rs) (auto simp: matches_def conflict_query_def)

lemma conflict_query_cols: "set (sel_cols (conflict_query d)) \<subseteq> set appointments_columns"
  by (simp add: sel_cols_def conflict_query_def appointments_columns_def)

lemma conflict_query_parts:
  "sel_table (conflict_query d) = TABLES_APPOINTMENTS"
  "sel_order (conflict_query d) = []"
  "sel_range (conflict_query d) = None"
  by (simp_all add: conflict_query_def)

lemma run_select_conflict_query:
  "schema db TABLES_APPOINTMENTS = Some appointments_columns \<Longrightarrow>
   run_select db (conflict_query d) = Inr ([], 0)"
  by (simp add: run_select_def conflict_query_unsat conflict_query_cols conflict_query_parts)

lemma store_insert_row:
  assumes "store_insert db tbl newId data = Inr (r, db')"
  shows "(\<forall>k. k \<noteq> ''id'' \<longrightarrow> r k = data k) \<and> rows_of db' tbl = rows_of db tbl @ [r]"
  using assms
  by (auto simp: store_insert_def Let_def split: option.splits if_splits)

text \<open>
  Claim C7. Whenever \<^verbatim>\<open>POST /\<close> inserts an appointment, the inserted row has status
  scheduled, \<open>createdBy\<close> the id of the calling principal and \<open>createdAt\<close>, \<open>updatedAt\<close> the
  readings of the clock, whatever the body carried in those fields; and the row is the one
  appended to the table.
\<close>

theorem createAppointment_fields:
  assumes "createAppointment V now1 now2 newId db req = Inr (appointment, db')"
    and "userId req = Some u"
  shows "appointment ''status'' = Some (JStr ''scheduled'')
       \<and> appointment ''createdBy'' = Some (JStr u)
       \<and> appointment ''createdAt'' = Some (JStr now1)
       \<and> appointment ''updatedAt'' = Some (JStr now2)
       \<and> rows_of db' TABLES_APPOINTMENTS = rows_of db TABLES_APPOINTMENTS @ [appointment]"
proof -
  let ?data = "(body req)(''createdBy'' := map_option JStr (userId req),
                          ''status'' \<mapsto> JStr ''scheduled'',
                          ''createdAt'' \<mapsto> JStr now1,
                          ''updatedAt'' \<mapsto> JStr now2)"
  from assms(1) have ins: "store_insert db TABLES_APPOINTMENTS newId ?data = Inr (appointment, db')"
    by (simp add: createAppointment_def Let_def split: list.splits sum.splits prod.splits if_splits)
  from store_insert_row [OF ins] assms(2) show ?thesis by simp
qed

lemma uuid_shape_D1: "uuid_shape D1" 
  by (simp add: uuid_shape_def D1_def is_hex_def)

lemma uuid_shape_P1: "uuid_shape P1" 
  by (simp add: uuid_shape_def P1_def is_hex_def)

lemma date_shape_examples: "date_shape ''2024-03-01''" "date_shape ''2024-03-08''"
  by (simp_all add: date_shape_def is_digit_def)

lemma matches_time_examples:
  "matches_time ''10:15''" "matches_time ''10:30''" "matches_time ''14:30''"
  by (simp_all add: matches_time_def is_digit_def)

lemma show_int_examples: "show_int 30 = ''30''" "show_int 60 = ''60''"
  by (simp_all add: show_int_def show_nat.simps digit_char_def)

lemma is_int_in_examples: "is_int_in 15 240 ''30''" "is_int_in 15 240 ''60''"
  by (simp_all add: is_int_in_def is_digit_def dec_of_def digit_val_def)

lemma validate_booking:
  assumes "uuid_shape d" "date_shape dt" "matches_time t" "is_int_in 15 240 (show_int n)"
    and "\<And>k. k \<notin> set [''patientId'', ''doctorId'', ''appointmentDate'', ''appointmentTime'',
           ''duration'', ''type''] \<Longrightarrow> k \<in> set [''reason'', ''notes''] \<Longrightarrow> b k = None"
    and "b ''patientId'' = Some (JStr P1)" "b ''doctorId'' = Some (JStr d)"
    and "b ''appointmentDate'' = Some (JStr dt)" "b ''appointmentTime'' = Some (JStr t)"
    and "b ''duration'' = Some (JNum n)" "b ''type'' = Some (JStr ''consultation'')"
  shows "validationResult demo_validators validateAppointmentData b = []"
  using assms(1-4,6-11) assms(5) [of "''reason''"] assms(5) [of "''notes''"] uuid_shape_P1
  by (simp add: validationResult_def validateAppointmentData_def demo_validators_def
      appointment_types_def)

lemma validate_body_forged:
  "validationResult demo_validators validateAppointmentData body_forged = []"
  by (rule validate_booking [of D1 "''2024-03-08''" "''14:30''" 60])
    (auto simp: uuid_shape_D1 date_shape_examples matches_time_examples show_int_examples
      is_int_in_examples body_forged_def booking_def)

text \<open>
  The theorem at a body that itself carries status completed, a \<open>createdBy\<close> and a
  \<open>createdAt\<close>: the inserted row is scheduled and created by the caller.
\<close>

theorem createAppointment_fields_witness:
  "body (req_create body_forged) ''status'' = Some (JStr ''completed'')
   \<and> body (req_create body_forged) ''createdBy'' = Some (JStr ''someone-else'')
   \<and> \<not> isl (createAppointment demo_validators ''2024-03-07T08:00:00.000Z''
              ''2024-03-07T08:00:00.001Z'' ''a9'' store_one_slot (req_create body_forged))
   \<and> fst (projr (createAppointment demo_validators ''2024-03-07T08:00:00.000Z''
              ''2024-03-07T08:00:00.001Z'' ''a9'' store_one_slot (req_create body_forged)))
        ''status'' = Some (JStr ''scheduled'')
   \<and> fst (projr (createAppointment demo_validators ''2024-03-07T08:00:00.000Z''
              ''2024-03-07T08:00:00.001Z'' ''a9'' store_one_slot (req_create body_forged)))
        ''createdBy'' = Some (JStr ''u-doc'')"
proof -
  let ?res = "createAppointment demo_validators ''2024-03-07T08:00:00.000Z''
              ''2024-03-07T08:00:00.001Z'' ''a9'' store_one_slot (req_create body_forged)"
  have sch: "schema store_one_slot TABLES_APPOINTMENTS = Some appointments_columns"
    by (simp add: store_one_slot_def demo_store_schema)
  have rows: "rows_of store_one_slot TABLES_APPOINTMENTS = [appt ''a1'' D1 ''2024-03-01'' ''10:00'' 30 ''scheduled'']"
    by (simp add: store_one_slot_def demo_store_appointments)
  have b: "body (req_create body_forged) = body_forged" "userId (req_create body_forged) = Some ''u-doc''"
    by (simp_all add: req_create_def demo_request_def)
  have ok: "\<not> isl ?res"
    unfolding createAppointment_def Let_def b validate_body_forged
    by (simp add: run_select_conflict_query [OF sch] store_insert_def sch rows
        body_forged_def booking_def appointments_columns_def is_null_def Let_def)
  then obtain a db' where h: "?res = Inr (a, db')"
    by (cases ?res) auto
  have sent: "body (req_create body_forged) ''status'' = Some (JStr ''completed'')"
    "body (req_create body_forged) ''createdBy'' = Some (JStr ''someone-else'')"
    unfolding b by (simp_all add: body_forged_def)
  from createAppointment_fields [OF h b(2)] sent show ?thesis
    unfolding h by simp
qed

lemma create_data_dom:
  assumes "dom b \<subseteq> set appointments_columns"
  shows "dom (b(''createdBy'' := c, ''status'' \<mapsto> s, ''createdAt'' \<mapsto> t1, ''updatedAt'' \<mapsto> t2))
           \<subseteq> set appointments_columns"
proof -
  have "dom (b(''createdBy'' := c, ''status'' \<mapsto> s, ''createdAt'' \<mapsto> t1, ''updatedAt'' \<mapsto> t2))
          \<subseteq> dom b \<union> {''createdBy'', ''status'', ''createdAt'', ''updatedAt''}"
    by (auto split: if_splits)
  moreover have "{''createdBy'', ''status'', ''createdAt'', ''updatedAt''} \<subseteq> set appointments_columns"
    by (simp add: appointments_columns_def)
  ultimately show ?thesis using assms by blast
qed


lemma store_insert_fresh:
  assumes "schema db tbl = Some cols" and "dom data \<subseteq> set cols"
    and "data ''id'' = None"
    and "\<forall>r\<in>set (rows_of db tbl). r ''id'' \<noteq> Some (JStr newId)"
  shows "store_insert db tbl newId data =
           Inr (data(''id'' \<mapsto> JStr newId),
                db\<lparr>rows_of := (rows_of db)(tbl := rows_of db tbl @ [data(''id'' \<mapsto> JStr newId)])\<rparr>)"
proof -
  have n: "is_null (data ''id'')" using assms(3) by (simp add: is_null_def)
  have f: "\<not> (\<exists>r'\<in>set (rows_of db tbl). r' ''id'' = (data(''id'' \<mapsto> JStr newId)) ''id'')"
    using assms(4) by simp
  show ?thesis
    unfolding store_insert_def Let_def assms(1) using assms(2) n f by simp
qed


lemma createAppointment_inserts:
  assumes "schema db TABLES_APPOINTMENTS = Some appointments_columns"
    and "validationResult V validateAppointmentData (body req) = []"
    and "dom (body req) \<subseteq> set appointments_columns"
    and "body req ''id'' = None"
    and "\<forall>r\<in>set (rows_of db TABLES_APPOINTMENTS). r ''id'' \<noteq> Some (JStr newId)"
  shows "createAppointment V now1 now2 newId db req =
           Inr ((body req)(''createdBy'' := map_option JStr (userId req),
                           ''status'' \<mapsto> JStr ''scheduled'',
                           ''createdAt'' \<mapsto> JStr now1,
                           ''updatedAt'' \<mapsto> JStr now2,
                           ''id'' \<mapsto> JStr newId),
                db\<lparr>rows_of := (rows_of db)(TABLES_APPOINTMENTS :=
                      rows_of db TABLES_APPOINTMENTS @
                        [(body req)(''createdBy'' := map_option JStr (userId req),
                           ''status'' \<mapsto> JStr ''scheduled'',
                           ''createdAt'' \<mapsto> JStr now1,
                           ''updatedAt'' \<mapsto> JStr now2,
                           ''id'' \<mapsto> JStr newId)])\<rparr>)"
proof -
  let ?data = "(body req)(''createdBy'' := map_option JStr (userId req),
                          ''status'' \<mapsto> JStr ''scheduled'',
                          ''createdAt'' \<mapsto> JStr now1,
                          ''updatedAt'' \<mapsto> JStr now2)"
  have i: "?data ''id'' = None"
    using assms(4) by simp
  have d: "dom ?data \<subseteq> set appointments_columns"
    by (rule create_data_dom [OF assms(3)])
  note ins = store_insert_fresh [where data = ?data, OF assms(1) d i assms(5)]
  show ?thesis
    unfolding createAppointment_def Let_def assms(2) run_select_conflict_query [OF assms(1)]
    by (simp add: ins)
qed


lemma createAppointment_error_is_validation:
  assumes "createAppointment V now1 now2 newId db req = Inl e"
  shows "\<exists>msg. e = ValidationError msg"
proof (cases "validationResult V validateAppointmentData (body req)")
  case (Cons m ms)
  with assms show ?thesis by (auto simp: createAppointment_def)
next
  case Nil
  let ?data = "(body req)(''createdBy'' := map_option JStr (userId req),
                          ''status'' \<mapsto> JStr ''scheduled'',
                          ''createdAt'' \<mapsto> JStr now1,
                          ''updatedAt'' \<mapsto> JStr now2)"
  show ?thesis
  proof (cases "run_select db (conflict_query ?data)")
    case (Inl x)
    with assms Nil show ?thesis by (auto simp: createAppointment_def)
  next
    case (Inr res)
    obtain conflicts cnt where res: "res = (conflicts, cnt)" by (cases res)
    show ?thesis
    proof (cases "conflicts = []")
      case False
      with assms Nil Inr res show ?thesis by (auto simp: createAppointment_def)
    next
      case True
      with assms Nil Inr res show ?thesis
        by (cases "store_insert db TABLES_APPOINTMENTS newId ?data")
          (auto simp: createAppointment_def)
    qed
  qed
qed

lemma errorHandler_ValidationError: "errorHandler (ValidationError msg) = 400"
  by (simp add: errorHandler_def ValidationError_def)

lemma validationResult_empty_iff:
  "validationResult V vs b = [] \<longleftrightarrow>
     (\<forall>(f, opt, chk, msg)\<in>set vs. (opt \<and> b f = None) \<or> check_ok V chk (b f))"
  by (auto simp: validationResult_def filter_empty_conv)

lemma validated_fields_present:
  assumes "validationResult V validateAppointmentData b = []"
  shows "b ''appointmentTime'' \<noteq> None" and "b ''duration'' \<noteq> None"
proof -
  from assms have t: "matches_time (to_str (b ''appointmentTime''))"
    and n: "is_int_in 15 240 (to_str (b ''duration''))"
    by (simp_all add: validationResult_empty_iff validateAppointmentData_def)
  from t show "b ''appointmentTime'' \<noteq> None"
    by (cases "b ''appointmentTime''") (simp_all add: matches_time_def)
  from n show "b ''duration'' \<noteq> None"
    by (cases "b ''duration''") (simp_all add: is_int_in_def)
qed

lemma conflict_query_time_free:
  "conflict_query (d(''appointmentTime'' := x, ''duration'' := y)) = conflict_query d"
  by (simp add: conflict_query_def val_def)

lemma isl_store_insert_cong:
  assumes "dom d' = dom d" and "d' ''id'' = d ''id''"
  shows "isl (store_insert db tbl newId d') = isl (store_insert db tbl newId d)"
  using assms by (simp add: store_insert_def Let_def split: option.splits)

lemma isl_wrap: "isl (case x of Inl u \<Rightarrow> Inl (f u) | Inr (a, d) \<Rightarrow> Inr (a, d)) = isl x"
  by (cases x) auto

lemma dom_upd_present:
  "m a \<noteq> None \<Longrightarrow> m b \<noteq> None \<Longrightarrow> dom (m(a \<mapsto> x, b \<mapsto> y)) = dom m"
  by auto

lemma createAppointment_time_independent:
  assumes "validationResult V validateAppointmentData (body req) = []"
    and "validationResult V validateAppointmentData (body req') = []"
    and "body req' = (body req)(''appointmentTime'' \<mapsto> t, ''duration'' \<mapsto> n)"
    and "userId req' = userId req"
  shows "isl (createAppointment V now1 now2 newId db req') =
         isl (createAppointment V now1 now2 newId db req)"
proof -
  let ?ext = "\<lambda>b. b(''createdBy'' := map_option JStr (userId req),
                      ''status'' \<mapsto> JStr ''scheduled'',
                      ''createdAt'' \<mapsto> JStr now1,
                      ''updatedAt'' \<mapsto> JStr now2)"
  have e: "?ext (body req') = (?ext (body req))(''appointmentTime'' \<mapsto> t, ''duration'' \<mapsto> n)"
    unfolding assms(3) by (rule ext) simp
  have q: "conflict_query (?ext (body req')) = conflict_query (?ext (body req))"
    unfolding e by (rule conflict_query_time_free)
  have pt: "?ext (body req) ''appointmentTime'' \<noteq> None"
    using validated_fields_present(1) [OF assms(1)] by simp
  have pd: "?ext (body req) ''duration'' \<noteq> None"
    using validated_fields_present(2) [OF assms(1)] by simp
  have "dom (?ext (body req')) = dom (?ext (body req))"
    unfolding e
    by (rule dom_upd_present [where m = "?ext (body req)" and a = "''appointmentTime''"
          and b = "''duration''", OF pt pd])
  moreover have "?ext (body req') ''id'' = ?ext (body req) ''id''"
    unfolding e by simp
  ultimately have i: "isl (store_insert db TABLES_APPOINTMENTS newId (?ext (body req'))) =
      isl (store_insert db TABLES_APPOINTMENTS newId (?ext (body req)))"
    by (rule isl_store_insert_cong)
  show ?thesis
  proof (cases "run_select db (conflict_query (?ext (body req)))")
    case (Inl x)
    then show ?thesis
      unfolding createAppointment_def Let_def assms(1,2) assms(4) q by simp
  next
    case (Inr res)
    obtain conflicts cnt where res: "res = (conflicts, cnt)" by (cases res)
    show ?thesis
    proof (cases "conflicts = []")
      case False
      then show ?thesis
        unfolding createAppointment_def Let_def assms(1,2) assms(4) q Inr res by simp
    next
      case True
      show ?thesis
        unfolding createAppointment_def Let_def assms(1,2) assms(4) q Inr res
        using True i by (simp add: isl_wrap)
    qed
  qed
qed

text \<open>
  Claim C1, as the handler has it. The conflict check of \<^verbatim>\<open>POST /\<close> compares no times: its
  query names the doctor, the date and the status only, so it is the same query for every
  \<open>appointmentTime\<close> and \<open>duration\<close>, and two valid requests that differ only in those two
  fields are both accepted or both refused. Every failure of the handler, a reported
  conflict included, is a ValidationError, which the error handler answers with 400.
\<close>

theorem conflict_check_ignores_time:
  "(validationResult V validateAppointmentData (body req) = [] \<and>
    validationResult V validateAppointmentData (body req') = [] \<and>
    body req' = (body req)(''appointmentTime'' \<mapsto> t, ''duration'' \<mapsto> n) \<and>
    userId req' = userId req \<longrightarrow>
      isl (createAppointment V now1 now2 newId db req') =
      isl (createAppointment V now1 now2 newId db req))
   \<and> conflict_query (d(''appointmentTime'' := x, ''duration'' := y)) = conflict_query d
   \<and> (createAppointment V now1 now2 newId db req = Inl e \<longrightarrow> errorHandler e = 400)"
proof (intro conjI impI)
  assume "validationResult V validateAppointmentData (body req) = [] \<and>
    validationResult V validateAppointmentData (body req') = [] \<and>
    body req' = (body req)(''appointmentTime'' \<mapsto> t, ''duration'' \<mapsto> n) \<and>
    userId req' = userId req"
  then show "isl (createAppointment V now1 now2 newId db req') =
      isl (createAppointment V now1 now2 newId db req)"
    using createAppointment_time_independent by blast
next
  show "conflict_query (d(''appointmentTime'' := x, ''duration'' := y)) = conflict_query d"
    by (rule conflict_query_time_free)
next
  assume "createAppointment V now1 now2 newId db req = Inl e"
  from createAppointment_error_is_validation [OF this]
  show "errorHandler e = 400"
    using errorHandler_ValidationError by auto
qed


lemma validate_plain_booking:
  assumes "uuid_shape d" "date_shape dt" "matches_time t" "is_int_in 15 240 (show_int n)"
  shows "validationResult demo_validators validateAppointmentData (booking d dt t n) = []"
  by (rule validate_booking [of d dt t n]) (use assms in \<open>auto simp: booking_def\<close>)

lemma booking_dom: "dom (booking d dt t n) \<subseteq> set appointments_columns"
  by (simp add: booking_def appointments_columns_def)

lemma booking_no_id: "booking d dt t n ''id'' = None"
  by (simp add: booking_def)

lemma req_create_parts: "body (req_create b) = b" "userId (req_create b) = Some ''u-doc''"
  by (simp_all add: req_create_def demo_request_def)

lemma store_one_slot_parts:
  "schema store_one_slot TABLES_APPOINTMENTS = Some appointments_columns"
  "rows_of store_one_slot TABLES_APPOINTMENTS = [appt ''a1'' D1 ''2024-03-01'' ''10:00'' 30 ''scheduled'']"
  by (simp_all add: store_one_slot_def demo_store_schema demo_store_appointments)

text \<open>
  The theorem at a candidate that overlaps the stored appointment (10:15 against 10:00 to
  10:30) and one that is adjacent to it (10:30): both have the same outcome; and at an empty
  body, which fails with a ValidationError and the code 400.
\<close>

theorem conflict_check_ignores_time_witness:
  "isl (createAppointment demo_validators ''2024-02-20T10:00:00.000Z'' ''2024-02-20T10:00:00.000Z''
         ''a2'' store_one_slot (req_create (booking D1 ''2024-03-01'' ''10:30'' 30)))
   = isl (createAppointment demo_validators ''2024-02-20T10:00:00.000Z'' ''2024-02-20T10:00:00.000Z''
         ''a2'' store_one_slot (req_create (booking D1 ''2024-03-01'' ''10:15'' 30)))
   \<and> isl (createAppointment demo_validators ''2024-02-20T10:00:00.000Z''
         ''2024-02-20T10:00:00.000Z'' ''a2'' store_one_slot (req_create Map.empty))
   \<and> errorHandler (projl (createAppointment demo_validators ''2024-02-20T10:00:00.000Z''
         ''2024-02-20T10:00:00.000Z'' ''a2'' store_one_slot (req_create Map.empty))) = 400"
proof -
  let ?now = "''2024-02-20T10:00:00.000Z''"
  let ?r1 = "req_create (booking D1 ''2024-03-01'' ''10:15'' 30)"
  let ?r2 = "req_create (booking D1 ''2024-03-01'' ''10:30'' 30)"
  let ?r0 = "req_create Map.empty"
  have v1: "validationResult demo_validators validateAppointmentData (body ?r1) = []"
    unfolding req_create_parts
    by (rule validate_plain_booking)
      (simp_all add: uuid_shape_D1 date_shape_examples matches_time_examples show_int_examples
        is_int_in_examples)
  have v2: "validationResult demo_validators validateAppointmentData (body ?r2) = []"
    unfolding req_create_parts
    by (rule validate_plain_booking)
      (simp_all add: uuid_shape_D1 date_shape_examples matches_time_examples show_int_examples
        is_int_in_examples)
  have b: "body ?r2 = (body ?r1)(''appointmentTime'' \<mapsto> JStr ''10:30'', ''duration'' \<mapsto> JNum 30)"
    unfolding req_create_parts by (rule ext) (simp add: booking_def)
  have u: "userId ?r2 = userId ?r1"
    by (simp add: req_create_parts)
  have bad: "createAppointment demo_validators ?now ?now ''a2'' store_one_slot ?r0
               = Inl (ValidationError ''Valid patient ID is required'')"
    by (simp add: createAppointment_def req_create_parts validationResult_def
        validateAppointmentData_def demo_validators_def uuid_shape_def)
  from conflict_check_ignores_time [where V = demo_validators and req = ?r1 and req' = ?r2
      and t = "JStr ''10:30''" and n = "JNum 30" and ?now1.0 = ?now and ?now2.0 = ?now
      and newId = "''a2''" and db = store_one_slot] v1 v2 b u
  have first: "isl (createAppointment demo_validators ?now ?now ''a2'' store_one_slot ?r2)
      = isl (createAppointment demo_validators ?now ?now ''a2'' store_one_slot ?r1)"
    by blast
  from conflict_check_ignores_time [where V = demo_validators and req = ?r0
      and ?now1.0 = ?now and ?now2.0 = ?now and newId = "''a2''" and db = store_one_slot
      and e = "ValidationError ''Valid patient ID is required''"] bad
  have third: "errorHandler (ValidationError ''Valid patient ID is required'') = 400"
    by blast
  from first third show ?thesis
    unfolding bad by simp
qed

text \<open>
  Claim C1 as stated fails: doctor D1 has a scheduled appointment on 2024-03-01 from 10:00
  to 10:30; a request for the same doctor and date at 10:15 for 30 minutes intersects it,
  yet the handler inserts it, and the table then violates Invariant I1.
\<close>

theorem create_overlap_counterexample:
  "same_doctor (booking D1 ''2024-03-01'' ''10:15'' 30)
     (appt ''a1'' D1 ''2024-03-01'' ''10:00'' 30 ''scheduled'')
   \<and> spec_active (appt ''a1'' D1 ''2024-03-01'' ''10:00'' 30 ''scheduled'')
   \<and> spec_intersects (booking D1 ''2024-03-01'' ''10:15'' 30)
        (appt ''a1'' D1 ''2024-03-01'' ''10:00'' 30 ''scheduled'')
   \<and> rows_of store_one_slot TABLES_APPOINTMENTS
        = [appt ''a1'' D1 ''2024-03-01'' ''10:00'' 30 ''scheduled'']
   \<and> \<not> isl (createAppointment demo_validators ''2024-02-20T10:00:00.000Z''
              ''2024-02-20T10:00:00.000Z'' ''a2'' store_one_slot
              (req_create (booking D1 ''2024-03-01'' ''10:15'' 30)))
   \<and> \<not> spec_I1 (rows_of (snd (projr (createAppointment demo_validators
              ''2024-02-20T10:00:00.000Z'' ''2024-02-20T10:00:00.000Z'' ''a2'' store_one_slot
              (req_create (booking D1 ''2024-03-01'' ''10:15'' 30))))) TABLES_APPOINTMENTS)"
proof -
  let ?a1 = "appt ''a1'' D1 ''2024-03-01'' ''10:00'' 30 ''scheduled''"
  let ?b = "booking D1 ''2024-03-01'' ''10:15'' 30"
  let ?r = "req_create ?b"
  let ?new = "?b(''createdBy'' \<mapsto> JStr ''u-doc'', ''status'' \<mapsto> JStr ''scheduled'',
                 ''createdAt'' \<mapsto> JStr ''2024-02-20T10:00:00.000Z'',
                 ''updatedAt'' \<mapsto> JStr ''2024-02-20T10:00:00.000Z'',
                 ''id'' \<mapsto> JStr ''a2'')"
  have v: "validationResult demo_validators validateAppointmentData (body ?r) = []"
    unfolding req_create_parts
    by (rule validate_plain_booking)
      (simp_all add: uuid_shape_D1 date_shape_examples matches_time_examples show_int_examples
        is_int_in_examples)
  have d: "dom (body ?r) \<subseteq> set appointments_columns"
    unfolding req_create_parts by (rule booking_dom)
  have i: "body ?r ''id'' = None"
    unfolding req_create_parts by (rule booking_no_id)
  have f: "\<forall>r\<in>set (rows_of store_one_slot TABLES_APPOINTMENTS). r ''id'' \<noteq> Some (JStr ''a2'')"
    by (simp add: store_one_slot_parts)
  have sd: "same_doctor ?b ?a1"
    by (simp add: same_doctor_def is_null_def booking_def appt_def)
  have act: "spec_active ?a1"
    by (simp add: spec_active_def active_set_def appt_def)
  have ov: "spec_intersects ?b ?a1"
    by (simp add: spec_intersects_def is_null_def appt_def slot_def booking_def
        time_minutes_examples)
  have bad: "\<not> spec_I1 [?a1, ?new]"
    by (simp add: spec_intersects_def same_doctor_def spec_active_def active_set_def is_null_def
        appt_def slot_def booking_def time_minutes_examples D1_def)
  show ?thesis
    unfolding createAppointment_inserts [OF store_one_slot_parts(1) v d i f]
    using sd act ov bad by (simp add: store_one_slot_parts req_create_parts)
qed

section \<open>Schedules\<close>

lemma sorted_insort_key_pair:
  assumes "sorted (map (\<lambda>x. (f x, g x)) ys)" and "\<forall>y\<in>set ys. g x \<le> g y"
  shows "sorted (map (\<lambda>x. (f x, g x)) (insort_key f x ys))"
  using assms
proof (induction ys)
  case Nil
  then show ?case by simp
next
  case (Cons y ys)
  show ?case
  proof (cases "f x \<le> f y")
    case True
    have "\<forall>z\<in>set (y # ys). (f x, g x) \<le> (f z, g z)"
    proof
      fix z assume z: "z \<in> set (y # ys)"
      from Cons.prems(1) z have "(f y, g y) \<le> (f z, g z)" by auto
      then have "f y \<le> f z" by (auto simp: less_eq_prod_def)
      with True have "f x \<le> f z" by simp
      moreover from Cons.prems(2) z have "g x \<le> g z" by auto
      ultimately show "(f x, g x) \<le> (f z, g z)" by (auto simp: less_eq_prod_def)
    qed
    with True Cons.prems(1) show ?thesis by simp
  next
    case False
    then have lt: "f y < f x" by simp
    have tail: "sorted (map (\<lambda>x. (f x, g x)) (insort_key f x ys))"
      using Cons.IH Cons.prems by simp
    have "\<forall>z\<in>set (insort_key f x ys). (f y, g y) \<le> (f z, g z)"
      using Cons.prems(1) lt by (auto simp: set_insort_key less_eq_prod_def)
    with False tail show ?thesis by simp
  qed
qed

lemma sorted_sort_key_pair:
  "sorted (map g xs) \<Longrightarrow> sorted (map (\<lambda>x. (f x, g x)) (sort_key f xs))"
proof (induction xs)
  case Nil
  then show ?case by simp
next
  case (Cons x xs)
  then have "sorted (map (\<lambda>x. (f x, g x)) (sort_key f xs))" and "\<forall>y\<in>set xs. g x \<le> g y"
    by auto
  then show ?case
    using sorted_insort_key_pair [of f g "sort_key f xs" x] by simp
qed

lemma eq_if_given_holds:
  "(\<forall>c\<in>set (eq_if_given req ''doctorId'' ''doctorId''). holds db r c) = for_doctor req r"
  by (simp add: eq_if_given_def for_doctor_def split: option.splits)

lemma eq_if_given_cols:
  "set (concat (map clause_cols (eq_if_given req k col))) \<subseteq> {col}"
  by (cases "given req k") (simp_all add: eq_if_given_def)

lemma matches_today:
  "matches db (sel_filters (today_query today req)) = today_selected today req"
  by (rule ext)
    (auto simp: matches_def today_query_def today_selected_def ball_Un eq_if_given_holds)

lemma matches_upcoming:
  "matches db (sel_filters (upcoming_query today endDate req)) = upcoming_selected db today endDate req"
  by (rule ext)
    (auto simp: matches_def upcoming_query_def upcoming_selected_def ball_Un eq_if_given_holds)

lemma today_query_cols: "set (sel_cols (today_query today req)) \<subseteq> set appointments_columns"
  using eq_if_given_cols [of req "''doctorId''" "''doctorId''"]
  by (auto simp: sel_cols_def today_query_def appointments_columns_def)

lemma upcoming_query_cols:
  "set (sel_cols (upcoming_query today endDate req)) \<subseteq> set appointments_columns"
  using eq_if_given_cols [of req "''doctorId''" "''doctorId''"]
  by (auto simp: sel_cols_def upcoming_query_def appointments_columns_def)

lemma run_select_today:
  assumes "schema db TABLES_APPOINTMENTS = Some appointments_columns"
  shows "run_select db (today_query today req) =
     Inr (sort_key (\<lambda>r. colkey db ''appointmentTime'' (r ''appointmentTime''))
            (filter (today_selected today req) (rows_of db TABLES_APPOINTMENTS)),
          length (filter (today_selected today req) (rows_of db TABLES_APPOINTMENTS)))"
proof -
  have parts: "sel_table (today_query today req) = TABLES_APPOINTMENTS"
    "sel_order (today_query today req) = [(''appointmentTime'', True)]"
    "sel_range (today_query today req) = None"
    by (simp_all add: today_query_def)
  show ?thesis
    unfolding run_select_def parts assms matches_today
    using today_query_cols [of today req] by (simp add: Let_def)
qed

lemma run_select_upcoming:
  assumes "schema db TABLES_APPOINTMENTS = Some appointments_columns"
  shows "run_select db (upcoming_query today endDate req) =
     Inr (sort_key (\<lambda>r. colkey db ''appointmentDate'' (r ''appointmentDate''))
            (sort_key (\<lambda>r. colkey db ''appointmentTime'' (r ''appointmentTime''))
               (filter (upcoming_selected db today endDate req) (rows_of db TABLES_APPOINTMENTS))),
          length (filter (upcoming_selected db today endDate req) (rows_of db TABLES_APPOINTMENTS)))"
proof -
  have parts: "sel_table (upcoming_query today endDate req) = TABLES_APPOINTMENTS"
    "sel_order (upcoming_query today endDate req) = [(''appointmentDate'', True), (''appointmentTime'', True)]"
    "sel_range (upcoming_query today endDate req) = None"
    by (simp_all add: upcoming_query_def)
  show ?thesis
    unfolding run_select_def parts assms matches_upcoming
    using upcoming_query_cols [of today endDate req] by (simp add: Let_def)
qed


text \<open>\<^verbatim>\<open>parseInt\<close> at some values of \<^verbatim>\<open>days\<close>, and the view when \<^verbatim>\<open>days\<close> has no digits.\<close>

lemma parseInt_examples:
  "parseInt (JStr ''14'') = Some (Num 14)"
  "parseInt (JStr ''0x10'') = Some (Num 16)"
  "parseInt (JStr ''-3'') = Some (Num (- 3))"
  "parseInt (JStr '' 7 days'') = Some (Num 7)"
  "parseInt (JStr ''abc'') = Some NaN"
  "parseInt (JStr []) = Some NaN"
  by (simp_all add: parseInt_string_def Let_def is_ascii_def is_space_def is_hex_def is_digit_def
      hex_of_def hex_val_def dec_of_def digit_val_def exact_def MAX_SAFE_INTEGER_def)

lemma upcomingSchedule_NaN:
  assumes "parseInt (query_or req ''days'' (JNum 7)) = Some NaN"
  shows "upcomingSchedule today plus_days db req = Some (Inl (RangeError ''Invalid time value''))"
  using assms by (simp add: upcomingSchedule_def)

text \<open>
  Claim C6, as the handlers have it. Both schedule queries only read the store. The view of
  today holds exactly the appointments dated today whose status is scheduled, confirmed or
  in-progress, in ascending order of time. When \<^verbatim>\<open>parseInt(days)\<close> is a number \<open>n\<close> and the
  day \<open>n\<close> days from today is a date, the upcoming view holds exactly the appointments dated
  from today to that date whose status is scheduled or confirmed (in-progress is not among
  them), in ascending order of date and then time. Each view is restricted to the doctor
  asked for, when one is given. Order means the store's order of the column.
\<close>

theorem schedules_select_and_order:
  assumes "schema db TABLES_APPOINTMENTS = Some appointments_columns"
  shows "(\<exists>rs. todaySchedule today db req = Inr (rs, db)
            \<and> mset rs = mset (filter (today_selected today req) (rows_of db TABLES_APPOINTMENTS))
            \<and> sorted (map (\<lambda>r. colkey db ''appointmentTime'' (r ''appointmentTime'')) rs))
       \<and> (parseInt (query_or req ''days'' (JNum 7)) = Some (Num n) \<and> plus_days n = Some endDate \<longrightarrow>
           (\<exists>rs. upcomingSchedule today plus_days db req = Some (Inr (rs, db))
              \<and> mset rs = mset (filter (upcoming_selected db today endDate req)
                                  (rows_of db TABLES_APPOINTMENTS))
              \<and> sorted (map (\<lambda>r. (colkey db ''appointmentDate'' (r ''appointmentDate''),
                                    colkey db ''appointmentTime'' (r ''appointmentTime''))) rs)))"
proof (intro conjI impI)
  show "\<exists>rs. todaySchedule today db req = Inr (rs, db)
            \<and> mset rs = mset (filter (today_selected today req) (rows_of db TABLES_APPOINTMENTS))
            \<and> sorted (map (\<lambda>r. colkey db ''appointmentTime'' (r ''appointmentTime'')) rs)"
    by (simp add: todaySchedule_def run_select_today [OF assms])
next
  assume "parseInt (query_or req ''days'' (JNum 7)) = Some (Num n) \<and> plus_days n = Some endDate"
  then show "\<exists>rs. upcomingSchedule today plus_days db req = Some (Inr (rs, db))
              \<and> mset rs = mset (filter (upcoming_selected db today endDate req)
                                  (rows_of db TABLES_APPOINTMENTS))
              \<and> sorted (map (\<lambda>r. (colkey db ''appointmentDate'' (r ''appointmentDate''),
                                    colkey db ''appointmentTime'' (r ''appointmentTime''))) rs)"
    by (simp add: upcomingSchedule_def run_select_upcoming [OF assms] sorted_sort_key_pair)
qed

lemma store_day_parts:
  "schema store_day TABLES_APPOINTMENTS = Some appointments_columns"
  "rows_of store_day TABLES_APPOINTMENTS =
     [appt ''a1'' D1 ''2024-03-01'' ''14:00'' 30 ''in-progress'',
      appt ''a2'' D1 ''2024-03-03'' ''09:00'' 30 ''scheduled'',
      appt ''a3'' D1 ''2024-03-01'' ''08:00'' 30 ''confirmed'',
      appt ''a4'' D1 ''2024-03-01'' ''07:00'' 30 ''cancelled'']"
  "colkey store_day = bytewise_key"
  by (simp_all add: store_day_def demo_store_schema demo_store_appointments) (simp add: demo_store_def)

lemma appt_fields:
  "appt i d dt t n st ''status'' = Some (JStr st)"
  "appt i d dt t n st ''doctorId'' = Some (JStr d)"
  "appt i d dt t n st ''appointmentDate'' = Some (JStr dt)"
  "appt i d dt t n st ''appointmentTime'' = Some (JStr t)"
  by (simp_all add: appt_def booking_def)

lemma given_req_schedule: "given req_schedule ''doctorId'' = Some D1"
  by (simp add: given_def req_schedule_def demo_request_def D1_def)

lemma days_req_schedule: "parseInt (query_or req_schedule ''days'' (JNum 7)) = Some (Num 7)"
  by (simp add: query_or_def req_schedule_def demo_request_def exact_def MAX_SAFE_INTEGER_def)

lemma march_plus_7: "march_plus_days 7 = Some ''2024-03-08''"
  by (simp add: march_plus_days_def show_int_def show_nat.simps digit_char_def)

lemma date_keys:
  "bytewise_key c (Some (JStr ''2024-03-01'')) \<le> bytewise_key c (Some (JStr ''2024-03-01''))"
  "bytewise_key c (Some (JStr ''2024-03-01'')) \<le> bytewise_key c (Some (JStr ''2024-03-03''))"
  "bytewise_key c (Some (JStr ''2024-03-01'')) \<le> bytewise_key c (Some (JStr ''2024-03-08''))"
  "bytewise_key c (Some (JStr ''2024-03-03'')) \<le> bytewise_key c (Some (JStr ''2024-03-08''))"
  "\<not> bytewise_key c (Some (JStr ''2024-03-03'')) \<le> bytewise_key c (Some (JStr ''2024-03-01''))"
  by (simp_all add: bytewise_key_def)

lemma upcoming_day:
  "upcomingSchedule ''2024-03-01'' march_plus_days store_day req_schedule =
     Some (Inr ([appt ''a3'' D1 ''2024-03-01'' ''08:00'' 30 ''confirmed'',
           appt ''a2'' D1 ''2024-03-03'' ''09:00'' 30 ''scheduled''], store_day))"
  unfolding upcomingSchedule_def Let_def days_req_schedule march_plus_7
    run_select_upcoming [OF store_day_parts(1)] store_day_parts(2)
  by (simp add: upcoming_selected_def for_doctor_def given_req_schedule appt_fields is_null_def
      store_day_parts(3) date_keys march_plus_7)


text \<open>The theorem at a store with four appointments of doctor D1, on 2024-03-01.\<close>

theorem schedules_select_and_order_witness:
  "\<not> isl (todaySchedule ''2024-03-01'' store_day req_schedule)
   \<and> sorted (map (\<lambda>r. colkey store_day ''appointmentTime'' (r ''appointmentTime''))
        (fst (projr (todaySchedule ''2024-03-01'' store_day req_schedule))))
   \<and> upcomingSchedule ''2024-03-01'' march_plus_days store_day req_schedule \<noteq> None
   \<and> \<not> isl (the (upcomingSchedule ''2024-03-01'' march_plus_days store_day req_schedule))
   \<and> sorted (map (\<lambda>r. (colkey store_day ''appointmentDate'' (r ''appointmentDate''),
                         colkey store_day ''appointmentTime'' (r ''appointmentTime'')))
        (fst (projr (the (upcomingSchedule ''2024-03-01'' march_plus_days store_day req_schedule)))))"
proof -
  note inst = schedules_select_and_order [OF store_day_parts(1), where today = "''2024-03-01''"
      and req = req_schedule and n = 7 and plus_days = march_plus_days
      and endDate = "''2024-03-08''"]
  from inst obtain rs1 where
    t: "todaySchedule ''2024-03-01'' store_day req_schedule = Inr (rs1, store_day)"
    and s1: "sorted (map (\<lambda>r. colkey store_day ''appointmentTime'' (r ''appointmentTime'')) rs1)"
    by blast
  from inst days_req_schedule march_plus_7 obtain rs2 where
    u: "upcomingSchedule ''2024-03-01'' march_plus_days store_day req_schedule
          = Some (Inr (rs2, store_day))"
    and s2: "sorted (map (\<lambda>r. (colkey store_day ''appointmentDate'' (r ''appointmentDate''),
                               colkey store_day ''appointmentTime'' (r ''appointmentTime''))) rs2)"
    by blast
  from s1 s2 show ?thesis unfolding t u by simp
qed

text \<open>
  Claim C6 as stated fails for the upcoming view: appointment a1 of doctor D1 is dated today
  and in progress, a status of the active set, and the upcoming view of that doctor from
  today on does not include it.
\<close>

theorem upcoming_excludes_in_progress_counterexample:
  "spec_active (appt ''a1'' D1 ''2024-03-01'' ''14:00'' 30 ''in-progress'')
   \<and> appt ''a1'' D1 ''2024-03-01'' ''14:00'' 30 ''in-progress''
        \<in> set (rows_of store_day TABLES_APPOINTMENTS)
   \<and> given req_schedule ''doctorId'' = Some D1
   \<and> map (\<lambda>r. r ''id'')
        (fst (projr (the (upcomingSchedule ''2024-03-01'' march_plus_days store_day req_schedule))))
       = [Some (JStr ''a3''), Some (JStr ''a2'')]"
  unfolding upcoming_day
  by (simp add: store_day_parts(2) given_req_schedule spec_active_def active_set_def appt_fields)

section \<open>List queries\<close>

lemma digit_val_digit_char: "d < 10 \<Longrightarrow> digit_val (digit_char d) = d"
proof -
  assume "d < 10"
  then have "d = 0 \<or> d = 1 \<or> d = 2 \<or> d = 3 \<or> d = 4 \<or> d = 5 \<or> d = 6 \<or> d = 7 \<or> d = 8 \<or> d = 9"
    by presburger
  then show ?thesis
    by (auto simp: digit_val_def digit_char_def)
qed

lemma is_digit_digit_char: "is_digit (digit_char d)"
proof -
  have "d mod 10 = 0 \<or> d mod 10 = 1 \<or> d mod 10 = 2 \<or> d mod 10 = 3 \<or> d mod 10 = 4 \<or>
        d mod 10 = 5 \<or> d mod 10 = 6 \<or> d mod 10 = 7 \<or> d mod 10 = 8 \<or> d mod 10 = 9"
    by presburger
  then show ?thesis
    by (auto simp: is_digit_def digit_char_def)
qed

lemma dec_of_snoc: "dec_of (s @ [c]) = 10 * dec_of s + digit_val c"
  by (simp add: dec_of_def)

lemma dec_of_append: "dec_of (a @ b) = dec_of a * 10 ^ length b + dec_of b"
proof (induction b rule: rev_induct)
  case Nil
  then show ?case by (simp add: dec_of_def)
next
  case (snoc c b)
  have "dec_of (a @ b @ [c]) = 10 * dec_of (a @ b) + digit_val c"
    using dec_of_snoc [of "a @ b" c] by simp
  then show ?case
    by (simp add: snoc.IH dec_of_snoc algebra_simps)
qed

lemma digits_show_nat: "list_all is_digit (show_nat n)"
proof (induction n rule: show_nat.induct)
  case (1 n)
  then show ?case
    by (subst show_nat.simps) (simp add: is_digit_digit_char)
qed

lemma dec_of_show_nat: "dec_of (show_nat n) = n"
proof (induction n rule: show_nat.induct)
  case (1 n)
  show ?case
  proof (cases "n < 10")
    case True
    then show ?thesis
      by (subst show_nat.simps) (simp add: dec_of_def digit_val_digit_char)
  next
    case False
    with 1 have "dec_of (show_nat (n div 10)) = n div 10" by simp
    with False show ?thesis
      by (subst show_nat.simps) (simp add: dec_of_snoc digit_val_digit_char)
  qed
qed

lemma show_nat_nonempty: "show_nat n \<noteq> []"
  by (subst show_nat.simps) simp

lemma ceil_div_pos:
  assumes "0 < l" and "ceil_div a l = Some tp"
  shows "a \<le> tp * l \<and> (tp - 1) * l < a"
proof -
  from assms have tp: "tp = - ((- a) div l)" by (simp add: ceil_div_def split: if_splits)
  have e: "l * ((- a) div l) + (- a) mod l = - a" by (rule mult_div_mod_eq)
  have m: "0 \<le> (- a) mod l" "(- a) mod l < l" using assms(1) by simp_all
  have t: "tp * l = - (l * ((- a) div l))" using tp by simp
  from e t have "tp * l = a + (- a) mod l" by linarith
  moreover have "(tp - 1) * l = tp * l - l" by (simp add: algebra_simps)
  ultimately show ?thesis using m by linarith
qed

lemma length_order_rows: "length (order_rows key os rs) = length rs"
  by (induction os arbitrary: rs) (auto simp: Let_def)


lemma exact_Some: "- MAX_SAFE_INTEGER \<le> n \<Longrightarrow> n \<le> MAX_SAFE_INTEGER \<Longrightarrow> exact n = Some n"
  by (simp add: exact_def)

lemma exact_SomeD: "exact n = Some m \<Longrightarrow> m = n \<and> - MAX_SAFE_INTEGER \<le> n \<and> n \<le> MAX_SAFE_INTEGER"
  by (simp add: exact_def split: if_splits)

lemma MAX_SAFE_INTEGER_pos: "0 < MAX_SAFE_INTEGER"
  by (simp add: MAX_SAFE_INTEGER_def)

lemma exact_nonneg: "0 \<le> n \<Longrightarrow> n \<le> MAX_SAFE_INTEGER \<Longrightarrow> exact n = Some n"
  using MAX_SAFE_INTEGER_pos by (simp add: exact_def)

lemma is_digit_facts:
  assumes "is_digit c"
  shows "is_ascii c" "\<not> is_space c" "c \<noteq> CHR ''-''" "c \<noteq> CHR ''+''" "c \<noteq> CHR ''x''" "c \<noteq> CHR ''X''"
  using assms by (auto simp: is_digit_def is_ascii_def is_space_def)

lemma parseInt_string_digits:
  assumes "list_all is_digit s" and "s \<noteq> []" and "exact (int (dec_of s)) = Some x"
  shows "parseInt_string s = Some (Num x)"
proof -
  from assms(2) obtain c t where s: "s = c # t" by (cases s) auto
  with assms(1) have c: "is_digit c" and t: "list_all is_digit t" by simp_all
  have asc: "list_all is_ascii s"
    using assms(1) is_digit_facts(1) by (simp add: list_all_iff)
  have dw: "dropWhile is_space s = s"
    using is_digit_facts(2) [OF c] by (simp add: s)
  have hd: "hd s \<noteq> CHR ''-''" "hd s \<noteq> CHR ''+''"
    using is_digit_facts(3,4) [OF c] by (simp_all add: s)
  have nohex: "take 2 s \<noteq> ''0x''" "take 2 s \<noteq> ''0X''"
  proof -
    show "take 2 s \<noteq> ''0x''"
    proof (cases t)
      case Nil
      then show ?thesis by (simp add: s)
    next
      case (Cons d t')
      with t have "is_digit d" by simp
      from is_digit_facts(5) [OF this] show ?thesis by (simp add: s Cons)
    qed
    show "take 2 s \<noteq> ''0X''"
    proof (cases t)
      case Nil
      then show ?thesis by (simp add: s)
    next
      case (Cons d t')
      with t have "is_digit d" by simp
      from is_digit_facts(6) [OF this] show ?thesis by (simp add: s Cons)
    qed
  qed
  have tw: "takeWhile is_digit s = s"
    using assms(1) by (simp add: takeWhile_eq_all_conv list_all_iff)
  show ?thesis
    unfolding parseInt_string_def Let_def dw
    using asc hd nohex assms(2,3) by (simp add: tw)
qed

lemma query_or_cases:
  "(query req k = None \<and> query_or req k d = d) \<or> (\<exists>s. query req k = Some s \<and> query_or req k d = JStr s)"
  by (cases "query req k") (simp_all add: query_or_def)

lemma to_number_JStr_pos:
  assumes "to_number (JStr s) = Some x" and "1 \<le> x"
  shows "s \<noteq> [] \<and> list_all is_digit s \<and> x = int (dec_of s) \<and> exact (int (dec_of s)) = Some x"
  using assms by (auto simp: exact_def split: if_splits)

lemma to_number_digits:
  "list_all is_digit t \<Longrightarrow> t \<noteq> [] \<Longrightarrow> to_number (JStr t) = exact (int (dec_of t))"
  by simp

lemma to_number_exact: "to_number v = Some x \<Longrightarrow> exact x = Some x"
  by (cases v) (auto simp: exact_def MAX_SAFE_INTEGER_def split: if_splits)

lemma parseInt_query_or:
  assumes "to_number (query_or req k (JNum d)) = Some x" and "1 \<le> x"
  shows "parseInt (query_or req k (JNum d)) = Some (Num x)"
proof (cases "query req k")
  case None
  with assms show ?thesis by (simp add: query_or_def)
next
  case (Some s)
  with assms have t: "to_number (JStr s) = Some x" by (simp add: query_or_def)
  from to_number_JStr_pos [OF t assms(2)]
  have f: "s \<noteq> []" "list_all is_digit s" "exact (int (dec_of s)) = Some x" by simp_all
  show ?thesis
    unfolding query_or_def Some option.case parseInt.simps
    by (rule parseInt_string_digits [OF f(2) f(1) f(3)])
qed

text \<open>
  The range the handlers ask for. With the limit left to its default the end is
  \<open>offset + limit - 1\<close>; with a limit sent in the query string, \<^verbatim>\<open>offset + limit\<close> joins the
  digits of the offset and the text of the limit, which is the number
  \<open>offset * 10 ^ length s + limit\<close>.
\<close>

lemma page_range_num:
  assumes "to_number page = Some p" and "1 \<le> p" and "1 \<le> l"
    and "(p - 1) * l + l \<le> MAX_SAFE_INTEGER"
  shows "page_range page (JNum l) = Some ((p - 1) * l, (p - 1) * l + l - 1)"
proof -
  let ?off = "(p - 1) * l"
  have off: "0 \<le> ?off" using assms(2,3) by simp
  have l: "exact l = Some l" using assms(3,4) off by (intro exact_nonneg) simp_all
  have o: "exact ?off = Some ?off" using assms(3,4) off by (intro exact_nonneg) simp_all
  have e: "exact (?off + l) = Some (?off + l)" using assms(3,4) off by (intro exact_nonneg) simp_all
  show ?thesis
    unfolding page_range_def using assms(1) by (simp add: l o e)
qed

lemma page_range_str:
  assumes "to_number page = Some p" and "1 \<le> p" and "to_number (JStr s) = Some l" and "1 \<le> l"
    and "(p - 1) * l * 10 ^ length s + l \<le> MAX_SAFE_INTEGER"
  shows "page_range page (JStr s) = Some ((p - 1) * l, (p - 1) * l * 10 ^ length s + l - 1)"
proof -
  from to_number_JStr_pos [OF assms(3,4)]
  have s: "s \<noteq> []" "list_all is_digit s" "l = int (dec_of s)" by simp_all
  let ?off = "(p - 1) * l"
  have off: "0 \<le> ?off" using assms(2,4) by simp
  then have sh: "show_int ?off = show_nat (nat ?off)" by (simp add: show_int_def)
  have "(1::int) \<le> 10 ^ length s" by simp
  then have "?off * 1 \<le> ?off * 10 ^ length s" using off by (rule mult_left_mono)
  then have le: "?off \<le> ?off * 10 ^ length s" by simp
  have o: "exact ?off = Some ?off"
    using off le assms(4,5) by (intro exact_nonneg) simp_all
  have big: "0 \<le> ?off * 10 ^ length s + l" using off assms(4) by simp
  have e: "exact (?off * 10 ^ length s + l) = Some (?off * 10 ^ length s + l)"
    using big assms(5) by (rule exact_nonneg)
  have dg: "list_all is_digit (show_nat (nat ?off) @ s)"
    using s(2) digits_show_nat by simp
  have ne: "show_nat (nat ?off) @ s \<noteq> []" using s(1) by simp
  have d: "int (dec_of (show_nat (nat ?off) @ s)) = ?off * 10 ^ length s + l"
    using off s(3) by (simp add: dec_of_append dec_of_show_nat)
  have v: "to_number (JStr (show_nat (nat ?off) @ s)) = Some (?off * 10 ^ length s + l)"
    unfolding to_number_digits [OF dg ne] d by (rule e)
  have jp: "js_plus ?off (JStr s) = Some (JStr (show_nat (nat ?off) @ s))"
    by (simp add: sh)
  have bind: "Option.bind (js_plus ?off (JStr s)) to_number = Some (?off * 10 ^ length s + l)"
    unfolding jp using v by (simp del: to_number.simps)
  show ?thesis
    unfolding page_range_def using assms(1,3) o bind by (simp del: to_number.simps)
qed

lemma page_range_query:
  assumes "to_number page = Some p" and "1 \<le> p"
    and "to_number (query_or req ''limit'' (JNum 20)) = Some l" and "1 \<le> l"
    and "(p - 1) * l * 10 ^ (case query req ''limit'' of None \<Rightarrow> 0 | Some s \<Rightarrow> length s) + l
           \<le> MAX_SAFE_INTEGER"
  shows "page_range page (query_or req ''limit'' (JNum 20)) =
           Some ((p - 1) * l,
                 (p - 1) * l * 10 ^ (case query req ''limit'' of None \<Rightarrow> 0 | Some s \<Rightarrow> length s)
                   + l - 1)"
proof (cases "query req ''limit''")
  case None
  then have q: "query_or req ''limit'' (JNum 20) = JNum 20" by (simp add: query_or_def)
  with assms(3) have l: "l = 20" by (simp add: exact_def split: if_splits)
  from assms(5) have b: "(p - 1) * l + l \<le> MAX_SAFE_INTEGER" by (simp add: None)
  show ?thesis
    unfolding q None option.case using page_range_num [OF assms(1,2,4) b] by (simp add: l)
next
  case (Some s)
  then have q: "query_or req ''limit'' (JNum 20) = JStr s" by (simp add: query_or_def)
  from assms(5) have b: "(p - 1) * l * 10 ^ length s + l \<le> MAX_SAFE_INTEGER" by (simp add: Some)
  show ?thesis
    unfolding q Some option.case
    by (rule page_range_str [OF assms(1,2) assms(3) [unfolded q] assms(4) b])
qed

lemma pagination_of_query:
  assumes "to_number (query_or req ''page'' (JNum 1)) = Some p" and "1 \<le> p"
    and "to_number (query_or req ''limit'' (JNum 20)) = Some l" and "1 \<le> l"
    and "int n \<le> MAX_SAFE_INTEGER"
  shows "\<exists>tp. pagination_of (query_or req ''page'' (JNum 1)) (query_or req ''limit'' (JNum 20)) n =
            Some \<lparr>currentPage = Num p, totalPages = tp, totalCount = n, limit = Num l,
                  hasNext = (p < tp), hasPrev = (1 < p)\<rparr>
          \<and> int n \<le> tp * l \<and> (tp - 1) * l < int n"
proof -
  obtain tp where tp: "ceil_div (int n) l = Some tp"
    using assms(4) by (simp add: ceil_div_def)
  have b: "int n \<le> tp * l \<and> (tp - 1) * l < int n"
    using ceil_div_pos [OF _ tp] assms(4) by simp
  have c: "exact (int n) = Some (int n)"
    using assms(5) by (intro exact_nonneg) simp_all
  have "pagination_of (query_or req ''page'' (JNum 1)) (query_or req ''limit'' (JNum 20)) n =
            Some \<lparr>currentPage = Num p, totalPages = tp, totalCount = n, limit = Num l,
                  hasNext = (p < tp), hasPrev = (1 < p)\<rparr>"
    unfolding pagination_of_def
    by (simp add: assms(1,3) c tp parseInt_query_or [OF assms(1,2)] parseInt_query_or [OF assms(3,4)])
  with b show ?thesis by blast
qed


lemma run_select_page:
  assumes "schema db (sel_table q) = Some cols" and "set (sel_cols q) \<subseteq> set cols"
    and "sel_range q = Some (off, e)" and "0 \<le> off" and "off \<le> e + 1"
  shows "run_select db q =
     Inr (take (nat (e - off + 1)) (drop (nat off)
            (order_rows (colkey db) (sel_order q)
               (filter (matches db (sel_filters q)) (rows_of db (sel_table q))))),
          length (filter (matches db (sel_filters q)) (rows_of db (sel_table q))))"
  unfolding run_select_def assms(1) using assms(2-5) by (simp add: Let_def)

lemma list_page:
  fixes mkq :: "int \<times> int \<Rightarrow> sel_query"
  assumes "to_number (query_or req ''page'' (JNum 1)) = Some p" and "1 \<le> p"
    and "to_number (query_or req ''limit'' (JNum 20)) = Some l" and "1 \<le> l"
    and "e = (p - 1) * l * 10 ^ (case query req ''limit'' of None \<Rightarrow> 0 | Some s \<Rightarrow> length s)
               + l - 1"
    and "e < MAX_SAFE_INTEGER"
    and "schema db tbl = Some cols"
    and "\<And>rng. sel_table (mkq rng) = tbl" and "\<And>rng. sel_filters (mkq rng) = fs"
    and "\<And>rng. sel_range (mkq rng) = Some rng"
    and "\<And>rng. set (sel_cols (mkq rng)) \<subseteq> set cols"
    and "n = length (filter (matches db fs) (rows_of db tbl))"
    and "int n \<le> MAX_SAFE_INTEGER"
  shows "\<exists>rs tp.
     (case page_range (query_or req ''page'' (JNum 1)) (query_or req ''limit'' (JNum 20)) of
        None \<Rightarrow> None
      | Some rng \<Rightarrow> run_list db (mkq rng) msg (query_or req ''page'' (JNum 1))
                      (query_or req ''limit'' (JNum 20)))
       = Some ([mkq ((p - 1) * l, e)],
               Inr \<lparr>items = rs,
                    pagination = \<lparr>currentPage = Num p, totalPages = tp, totalCount = n,
                                  limit = Num l, hasNext = (p < tp), hasPrev = (1 < p)\<rparr>\<rparr>)
     \<and> length rs = min (nat (e - (p - 1) * l + 1)) (n - nat ((p - 1) * l))
     \<and> int n \<le> tp * l \<and> (tp - 1) * l < int n"
proof -
  let ?page = "query_or req ''page'' (JNum 1)"
  let ?lim = "query_or req ''limit'' (JNum 20)"
  let ?off = "(p - 1) * l"
  let ?k = "case query req ''limit'' of None \<Rightarrow> 0 | Some s \<Rightarrow> length s"
  have bound: "?off * 10 ^ ?k + l \<le> MAX_SAFE_INTEGER"
    using assms(5,6) by simp
  have pr: "page_range ?page ?lim = Some (?off, e)"
    unfolding assms(5) by (rule page_range_query [OF assms(1-4) bound])
  have off: "0 \<le> ?off" using assms(2,4) by simp
  have "(1::int) \<le> 10 ^ ?k" by simp
  then have "?off * 1 \<le> ?off * 10 ^ ?k" using off by (rule mult_left_mono)
  then have ge: "?off + l - 1 \<le> e" unfolding assms(5) by simp
  from pagination_of_query [OF assms(1-4) assms(13)] obtain tp where
    pge: "pagination_of ?page ?lim n =
            Some \<lparr>currentPage = Num p, totalPages = tp, totalCount = n, limit = Num l,
                  hasNext = (p < tp), hasPrev = (1 < p)\<rparr>
          \<and> int n \<le> tp * l \<and> (tp - 1) * l < int n" ..
  from pge have pg: "pagination_of ?page ?lim n =
            Some \<lparr>currentPage = Num p, totalPages = tp, totalCount = n, limit = Num l,
                  hasNext = (p < tp), hasPrev = (1 < p)\<rparr>" by (rule conjunct1)
  from pge have tp: "int n \<le> tp * l \<and> (tp - 1) * l < int n" by (rule conjunct2)
  let ?q = "mkq (?off, e)"
  let ?rs = "take (nat (e - ?off + 1)) (drop (nat ?off)
            (order_rows (colkey db) (sel_order ?q) (filter (matches db fs) (rows_of db tbl))))"
  have win: "?off \<le> e + 1" using ge assms(4) by simp
  have sel: "run_select db ?q = Inr (?rs, n)"
    unfolding assms(12)
    using run_select_page [of db ?q cols ?off e, unfolded assms(8) assms(9) assms(10),
        OF assms(7) assms(11) refl off win]
    by simp
  have len: "length ?rs = min (nat (e - ?off + 1)) (n - nat ?off)"
    by (simp add: length_order_rows assms(12))
  have "(case page_range ?page ?lim of None \<Rightarrow> None
         | Some rng \<Rightarrow> run_list db (mkq rng) msg ?page ?lim)
        = Some ([?q], Inr \<lparr>items = ?rs,
                    pagination = \<lparr>currentPage = Num p, totalPages = tp, totalCount = n,
                                  limit = Num l, hasNext = (p < tp), hasPrev = (1 < p)\<rparr>\<rparr>)"
    unfolding pr option.case prod.case run_list_def sel sum.case pg by simp
  with len tp show ?thesis
    by (intro exI [of _ ?rs] exI [of _ tp] conjI) simp_all
qed

lemma eq_if_given_cols_in:
  "col \<in> S \<Longrightarrow> set (concat (map clause_cols (eq_if_given req k col))) \<subseteq> S"
  using eq_if_given_cols [of req k col] by blast

lemma appointments_filters_cols:
  "set (concat (map clause_cols (appointments_filters req))) \<subseteq> set appointments_columns"
proof -
  have m: "''status'' \<in> set appointments_columns" "''doctorId'' \<in> set appointments_columns"
    "''patientId'' \<in> set appointments_columns" "''appointmentDate'' \<in> set appointments_columns"
    "''type'' \<in> set appointments_columns"
    by (simp_all add: appointments_columns_def)
  show ?thesis
    unfolding appointments_filters_def map_append concat_append set_append Un_subset_iff
    by (intro conjI eq_if_given_cols_in m)
qed

lemma appointments_list_query_cols:
  assumes "query_str req ''sortBy'' ''appointmentDate'' \<in> set appointments_columns"
  shows "set (sel_cols (appointments_list_query req rng)) \<subseteq> set appointments_columns"
proof -
  have "sel_cols (appointments_list_query req rng) =
          concat (map clause_cols (appointments_filters req)) @
          [query_str req ''sortBy'' ''appointmentDate'']"
    by (simp add: sel_cols_def appointments_list_query_def)
  then show ?thesis
    using appointments_filters_cols [of req] assms by simp
qed

lemma patients_filters_cols:
  assumes "patients_filters req = Some fs"
  shows "set (concat (map clause_cols fs)) \<subseteq> set patients_columns"
proof -
  have m: "''firstName'' \<in> set patients_columns" "''lastName'' \<in> set patients_columns"
    "''email'' \<in> set patients_columns" "''gender'' \<in> set patients_columns"
    "''bloodType'' \<in> set patients_columns"
    by (simp_all add: patients_columns_def)
  have g: "set (concat (map clause_cols
             (eq_if_given req ''gender'' ''gender'' @ eq_if_given req ''bloodType'' ''bloodType'')))
           \<subseteq> set patients_columns"
    unfolding map_append concat_append set_append Un_subset_iff
    by (intro conjI eq_if_given_cols_in m)
  show ?thesis
  proof (cases "given req ''search''")
    case None
    with assms have "fs = eq_if_given req ''gender'' ''gender'' @ eq_if_given req ''bloodType'' ''bloodType''"
      by (simp add: patients_filters_def)
    with g show ?thesis by simp
  next
    case (Some search)
    with assms have "fs = [Or [ILike ''firstName'' (''%'' @ search @ ''%''),
                          ILike ''lastName'' (''%'' @ search @ ''%''),
                          ILike ''email'' (''%'' @ search @ ''%'')]]
                     @ (eq_if_given req ''gender'' ''gender'' @ eq_if_given req ''bloodType'' ''bloodType'')"
      by (simp add: patients_filters_def split: if_splits)
    then have "set (concat (map clause_cols fs)) =
        {''firstName'', ''lastName'', ''email''} \<union>
        set (concat (map clause_cols
             (eq_if_given req ''gender'' ''gender'' @ eq_if_given req ''bloodType'' ''bloodType'')))"
      by (simp del: map_append)
    with g m(1-3) show ?thesis by simp
  qed
qed

lemma patients_list_query_cols:
  assumes "query_str req ''sortBy'' ''createdAt'' \<in> set patients_columns"
    and "patients_filters req = Some fs"
  shows "set (sel_cols (patients_list_query req fs rng)) \<subseteq> set patients_columns"
proof -
  have "sel_cols (patients_list_query req fs rng) =
          concat (map clause_cols fs) @ [query_str req ''sortBy'' ''createdAt'']"
    by (simp add: sel_cols_def patients_list_query_def)
  then show ?thesis
    using patients_filters_cols [OF assms(2)] assms(1) by simp
qed

lemma listAppointments_unfold:
  "listAppointments db req =
     (case page_range (query_or req ''page'' (JNum 1)) (query_or req ''limit'' (JNum 20)) of
        None \<Rightarrow> None
      | Some rng \<Rightarrow> run_list db (appointments_list_query req rng) ''Failed to fetch appointments''
                      (query_or req ''page'' (JNum 1)) (query_or req ''limit'' (JNum 20)))"
  by (simp add: listAppointments_def Let_def)

lemma listPatients_unfold:
  assumes "patients_filters req = Some fs"
  shows "listPatients db req =
     (case page_range (query_or req ''page'' (JNum 1)) (query_or req ''limit'' (JNum 20)) of
        None \<Rightarrow> None
      | Some rng \<Rightarrow> run_list db (patients_list_query req fs rng) ''Failed to fetch patients''
                      (query_or req ''page'' (JNum 1)) (query_or req ''limit'' (JNum 20)))"
  by (simp add: listPatients_def Let_def assms split: option.splits)

lemma appointments_list_query_parts:
  "sel_table (appointments_list_query req rng) = TABLES_APPOINTMENTS"
  "sel_filters (appointments_list_query req rng) = appointments_filters req"
  "sel_range (appointments_list_query req rng) = Some rng"
  "sel_order (appointments_list_query req rng) =
     [(query_str req ''sortBy'' ''appointmentDate'', query_str req ''sortOrder'' ''asc'' = ''asc'')]"
  by (simp_all add: appointments_list_query_def)

lemma patients_list_query_parts:
  "sel_table (patients_list_query req fs rng) = TABLES_PATIENTS"
  "sel_filters (patients_list_query req fs rng) = fs"
  "sel_range (patients_list_query req fs rng) = Some rng"
  "sel_order (patients_list_query req fs rng) =
     [(query_str req ''sortBy'' ''createdAt'', query_str req ''sortOrder'' ''desc'' = ''asc'')]"
  by (simp_all add: patients_list_query_def)

text \<open>
  Claim C8. Take a list query with page \<open>p \<ge> 1\<close> and limit \<open>l \<ge> 1\<close>, each a string of
  decimal digits or left to its default, over \<open>n\<close> rows that satisfy the filters, where the
  numbers involved are integers a double holds exactly: \<open>n\<close> and the end \<open>e\<close> of the range
  asked for are at most \<open>MAX_SAFE_INTEGER\<close>. Both list handlers ask the store for the rows
  from offset \<open>(p - 1) * l\<close> to \<open>e\<close> and answer the pagination with \<open>currentPage = p\<close>,
  \<open>limit = l\<close>, \<open>totalCount = n\<close>, \<open>totalPages\<close> the least integer \<open>tp\<close> with \<open>n \<le> tp * l\<close>
  (the ceiling of \<open>n / l\<close>), \<open>hasNext = (p < tp)\<close> and \<open>hasPrev = (p > 1)\<close>. The end of the
  range is \<open>offset + l - 1\<close> when the limit is left to its default; a limit sent in the
  query string is joined to the digits of the offset by \<^verbatim>\<open>offset + limit\<close>, so the end is then
  \<open>offset * 10 ^ length s + l - 1\<close> for the limit's text \<open>s\<close>. The page holds the rows from the
  offset to the end of the range. For the patients the search text, when one is sent,
  consists of letters and digits.
\<close>

theorem list_pagination:
  assumes "to_number (query_or req ''page'' (JNum 1)) = Some p" and "1 \<le> p"
    and "to_number (query_or req ''limit'' (JNum 20)) = Some l" and "1 \<le> l"
    and "e = (p - 1) * l * 10 ^ (case query req ''limit'' of None \<Rightarrow> 0 | Some s \<Rightarrow> length s)
               + l - 1"
    and "e < MAX_SAFE_INTEGER"
  shows "(schema db TABLES_APPOINTMENTS = Some appointments_columns \<and>
          query_str req ''sortBy'' ''appointmentDate'' \<in> set appointments_columns \<and>
          n = length (filter (matches db (appointments_filters req)) (rows_of db TABLES_APPOINTMENTS)) \<and>
          int n \<le> MAX_SAFE_INTEGER \<longrightarrow>
          (\<exists>rs tp.
             listAppointments db req =
               Some ([appointments_list_query req ((p - 1) * l, e)],
                     Inr \<lparr>items = rs,
                          pagination = \<lparr>currentPage = Num p, totalPages = tp, totalCount = n,
                                        limit = Num l, hasNext = (p < tp), hasPrev = (1 < p)\<rparr>\<rparr>)
             \<and> length rs = min (nat (e - (p - 1) * l + 1)) (n - nat ((p - 1) * l))
             \<and> int n \<le> tp * l \<and> (tp - 1) * l < int n))
       \<and> (schema db TABLES_PATIENTS = Some patients_columns \<and>
          query_str req ''sortBy'' ''createdAt'' \<in> set patients_columns \<and>
          patients_filters req = Some fs \<and>
          m = length (filter (matches db fs) (rows_of db TABLES_PATIENTS)) \<and>
          int m \<le> MAX_SAFE_INTEGER \<longrightarrow>
          (\<exists>rs tp.
             listPatients db req =
               Some ([patients_list_query req fs ((p - 1) * l, e)],
                     Inr \<lparr>items = rs,
                          pagination = \<lparr>currentPage = Num p, totalPages = tp, totalCount = m,
                                        limit = Num l, hasNext = (p < tp), hasPrev = (1 < p)\<rparr>\<rparr>)
             \<and> length rs = min (nat (e - (p - 1) * l + 1)) (m - nat ((p - 1) * l))
             \<and> int m \<le> tp * l \<and> (tp - 1) * l < int m))"
proof (intro conjI impI)
  assume a: "schema db TABLES_APPOINTMENTS = Some appointments_columns \<and>
          query_str req ''sortBy'' ''appointmentDate'' \<in> set appointments_columns \<and>
          n = length (filter (matches db (appointments_filters req)) (rows_of db TABLES_APPOINTMENTS)) \<and>
          int n \<le> MAX_SAFE_INTEGER"
  then have a1: "schema db TABLES_APPOINTMENTS = Some appointments_columns"
    and a2: "query_str req ''sortBy'' ''appointmentDate'' \<in> set appointments_columns"
    and a3: "n = length (filter (matches db (appointments_filters req)) (rows_of db TABLES_APPOINTMENTS))"
    and a4: "int n \<le> MAX_SAFE_INTEGER"
    by simp_all
  show "\<exists>rs tp.
             listAppointments db req =
               Some ([appointments_list_query req ((p - 1) * l, e)],
                     Inr \<lparr>items = rs,
                          pagination = \<lparr>currentPage = Num p, totalPages = tp, totalCount = n,
                                        limit = Num l, hasNext = (p < tp), hasPrev = (1 < p)\<rparr>\<rparr>)
             \<and> length rs = min (nat (e - (p - 1) * l + 1)) (n - nat ((p - 1) * l))
             \<and> int n \<le> tp * l \<and> (tp - 1) * l < int n"
    unfolding listAppointments_unfold
    by (rule list_page [OF assms a1 appointments_list_query_parts(1,2,3)
          appointments_list_query_cols [OF a2] a3 a4])
next
  assume a: "schema db TABLES_PATIENTS = Some patients_columns \<and>
          query_str req ''sortBy'' ''createdAt'' \<in> set patients_columns \<and>
          patients_filters req = Some fs \<and>
          m = length (filter (matches db fs) (rows_of db TABLES_PATIENTS)) \<and>
          int m \<le> MAX_SAFE_INTEGER"
  then have a1: "schema db TABLES_PATIENTS = Some patients_columns"
    and a2: "query_str req ''sortBy'' ''createdAt'' \<in> set patients_columns"
    and a5: "patients_filters req = Some fs"
    and a3: "m = length (filter (matches db fs) (rows_of db TABLES_PATIENTS))"
    and a4: "int m \<le> MAX_SAFE_INTEGER"
    by simp_all
  show "\<exists>rs tp.
             listPatients db req =
               Some ([patients_list_query req fs ((p - 1) * l, e)],
                     Inr \<lparr>items = rs,
                          pagination = \<lparr>currentPage = Num p, totalPages = tp, totalCount = m,
                                        limit = Num l, hasNext = (p < tp), hasPrev = (1 < p)\<rparr>\<rparr>)
             \<and> length rs = min (nat (e - (p - 1) * l + 1)) (m - nat ((p - 1) * l))
             \<and> int m \<le> tp * l \<and> (tp - 1) * l < int m"
    unfolding listPatients_unfold [OF a5]
    by (rule list_page [OF assms a1 patients_list_query_parts(1,2,3)
          patients_list_query_cols [OF a2 a5] a3 a4])
qed

lemma no_filters_given:
  assumes "query req ''status'' = None" "query req ''doctorId'' = None"
    "query req ''patientId'' = None" "query req ''date'' = None" "query req ''type'' = None"
  shows "appointments_filters req = []"
  using assms by (simp add: appointments_filters_def eq_if_given_def given_def)

lemma matches_no_filters: "matches db [] = (\<lambda>r. True)"
  by (rule ext) (simp add: matches_def)

text \<open>
  The theorem at the scenario of the specification: 45 appointments, limit 20, page 3. There
  are 3 pages; page 3 starts at offset 40 and holds 5 items, with no next page and a
  previous one.
\<close>

theorem list_pagination_witness:
  "(case listAppointments store_45 req_page3 of
      Some (calls, Inr pg) \<Rightarrow>
        map (map_option fst \<circ> sel_range) calls = [Some 40]
        \<and> length (items pg) = 5
        \<and> currentPage (pagination pg) = Num 3 \<and> limit (pagination pg) = Num 20
        \<and> totalCount (pagination pg) = 45 \<and> totalPages (pagination pg) = 3
        \<and> \<not> hasNext (pagination pg) \<and> hasPrev (pagination pg)
    | _ \<Rightarrow> False)"
proof -
  have h1: "to_number (query_or req_page3 ''page'' (JNum 1)) = Some 3"
    by (simp add: query_or_def req_page3_def demo_request_def is_digit_def dec_of_def digit_val_def
        exact_def MAX_SAFE_INTEGER_def)
  have h3: "to_number (query_or req_page3 ''limit'' (JNum 20)) = Some 20"
    by (simp add: query_or_def req_page3_def demo_request_def is_digit_def dec_of_def digit_val_def
        exact_def MAX_SAFE_INTEGER_def)
  have h5: "(4019::int) = (3 - 1) * 20 * 10 ^ (case query req_page3 ''limit'' of None \<Rightarrow> 0
                | Some s \<Rightarrow> length s) + 20 - 1"
    by (simp add: req_page3_def demo_request_def)
  have h6: "(4019::int) < MAX_SAFE_INTEGER" by (simp add: MAX_SAFE_INTEGER_def)
  have sch: "schema store_45 TABLES_APPOINTMENTS = Some appointments_columns"
    by (simp add: store_45_def demo_store_schema)
  have srt: "query_str req_page3 ''sortBy'' ''appointmentDate'' \<in> set appointments_columns"
    by (simp add: query_str_def req_page3_def demo_request_def appointments_columns_def)
  have nf: "appointments_filters req_page3 = []"
    by (rule no_filters_given) (simp_all add: req_page3_def demo_request_def)
  have n: "45 = length (filter (matches store_45 (appointments_filters req_page3))
                          (rows_of store_45 TABLES_APPOINTMENTS))"
    unfolding nf matches_no_filters by (simp add: store_45_def demo_store_appointments)
  have nb: "int 45 \<le> MAX_SAFE_INTEGER" by (simp add: MAX_SAFE_INTEGER_def)
  have p1: "(1::int) \<le> 3" and p2: "(1::int) \<le> 20" by simp_all
  note inst = list_pagination [OF h1 p1 h3 p2 h5 h6, where db = store_45 and n = 45,
      THEN conjunct1, rule_format, OF conjI [OF sch conjI [OF srt conjI [OF n nb]]]]
  from inst obtain rs tp where
    c: "listAppointments store_45 req_page3 =
          Some ([appointments_list_query req_page3 ((3 - 1) * 20, 4019)],
                Inr \<lparr>items = rs,
                     pagination = \<lparr>currentPage = Num 3, totalPages = tp, totalCount = 45,
                                   limit = Num 20, hasNext = (3 < tp), hasPrev = (1 < (3::int))\<rparr>\<rparr>)
        \<and> length rs = min (nat (4019 - (3 - 1) * 20 + 1)) (45 - nat ((3 - 1) * 20))
        \<and> int 45 \<le> tp * 20 \<and> (tp - 1) * 20 < int 45"
    by (elim exE)
  from c have r: "listAppointments store_45 req_page3 =
          Some ([appointments_list_query req_page3 ((3 - 1) * 20, 4019)],
                Inr \<lparr>items = rs,
                     pagination = \<lparr>currentPage = Num 3, totalPages = tp, totalCount = 45,
                                   limit = Num 20, hasNext = (3 < tp), hasPrev = (1 < (3::int))\<rparr>\<rparr>)"
    by (rule conjunct1)
  from c have tp3: "tp = 3" by simp
  from c have l5: "length rs = 5" by simp
  show ?thesis
    unfolding r by (simp add: tp3 l5 appointments_list_query_parts)
qed

section \<open>Field names in list queries\<close>













end
